theory Spec2Isabelle
  imports Complex_Main "HOL-Library.Multiset"
begin

section \<open>Strings\<close>

text \<open>
  A JavaScript string is modelled as a \<open>string\<close>: a list of code units, of which the
  model covers those below 256.  Numbers are modelled as \<open>real\<close> (exact arithmetic; the
  rounding of IEEE doubles, NaN and the infinities are outside the model), counts and
  lengths as \<open>nat\<close>.
\<close>

definition toLowerCase_char :: "char \<Rightarrow> char" where
  "toLowerCase_char c =
     (let n = (of_char c :: nat)
      in if (65 \<le> n \<and> n \<le> 90) \<or> (192 \<le> n \<and> n \<le> 222 \<and> n \<noteq> 215)
         then char_of (n + 32) else c)"

definition toLowerCase :: "string \<Rightarrow> string" where
  "toLowerCase s = map toLowerCase_char s"

text \<open>White space and line terminators as \<open>String.prototype.trim\<close> and \<open>\s\<close> read them.\<close>

definition isWhiteSpace :: "char \<Rightarrow> bool" where
  "isWhiteSpace c = ((of_char c :: nat) \<in> {9, 10, 11, 12, 13, 32, 160})"

definition trim :: "string \<Rightarrow> string" where
  "trim s = rev (dropWhile isWhiteSpace (rev (dropWhile isWhiteSpace s)))"

text \<open>\<open>s.indexOf("/")\<close>: the index of the first slash, \<open>None\<close> for -1.\<close>

fun indexOf_slash :: "string \<Rightarrow> nat option" where
  "indexOf_slash [] = None"
| "indexOf_slash (c # cs) =
     (if c = CHR ''/'' then Some 0 else map_option Suc (indexOf_slash cs))"

section \<open>Regular expressions\<close>

text \<open>
  The patterns of the source are regular expressions with the flag \<open>i\<close>, built from
  literals, alternation, sequence, the character class \<open>[- ]\<close>, \<open>\s+\<close>, \<open>.*\<close> and the
  word boundary \<open>\b\<close>.  \<open>rx_ends r s ps\<close> lists the positions at which a match of \<open>r\<close>
  that starts at one of the positions \<open>ps\<close> of \<open>s\<close> can end; \<open>rx_test\<close> is
  \<open>RegExp.prototype.test\<close>: some match starts at some position.
\<close>

datatype rx =
    Lit string
  | Cls "char list"
  | Spaces
  | AnyStar
  | WordB
  | Alt "rx list"
  | Seq "rx list"

text \<open>Canonicalisation under the flag \<open>i\<close>: letters a-z compare as A-Z.\<close>

definition canon :: "char \<Rightarrow> char" where
  "canon c =
     (let n = (of_char c :: nat)
      in if 97 \<le> n \<and> n \<le> 122 then char_of (n - 32) else c)"

definition isWordChar :: "char \<Rightarrow> bool" where
  "isWordChar c =
     (let n = (of_char c :: nat)
      in (48 \<le> n \<and> n \<le> 57) \<or> (65 \<le> n \<and> n \<le> 90) \<or> n = 95 \<or> (97 \<le> n \<and> n \<le> 122))"

definition isLineTerminator :: "char \<Rightarrow> bool" where
  "isLineTerminator c = ((of_char c :: nat) \<in> {10, 13})"

definition lit_at :: "string \<Rightarrow> string \<Rightarrow> nat \<Rightarrow> bool" where
  "lit_at w s p = (map canon (take (length w) (drop p s)) = map canon w)"

definition wordBoundary_at :: "string \<Rightarrow> nat \<Rightarrow> bool" where
  "wordBoundary_at s p =
     ((0 < p \<and> p \<le> length s \<and> isWordChar (s ! (p - 1))) \<noteq> (p < length s \<and> isWordChar (s ! p)))"

fun rx_ends :: "rx \<Rightarrow> string \<Rightarrow> nat list \<Rightarrow> nat list"
  and rx_ends_alt :: "rx list \<Rightarrow> string \<Rightarrow> nat list \<Rightarrow> nat list"
  and rx_ends_seq :: "rx list \<Rightarrow> string \<Rightarrow> nat list \<Rightarrow> nat list"
where
  "rx_ends (Lit w) s ps = map (\<lambda>p. p + length w) (filter (lit_at w s) ps)"
| "rx_ends (Cls cs) s ps =
     map Suc (filter (\<lambda>p. p < length s \<and> canon (s ! p) \<in> set (map canon cs)) ps)"
| "rx_ends Spaces s ps =
     concat (map (\<lambda>p. map (\<lambda>k. p + k) [1 ..< Suc (length (takeWhile isWhiteSpace (drop p s)))]) ps)"
| "rx_ends AnyStar s ps =
     concat (map (\<lambda>p. map (\<lambda>k. p + k)
        [0 ..< Suc (length (takeWhile (\<lambda>c. \<not> isLineTerminator c) (drop p s)))]) ps)"
| "rx_ends WordB s ps = filter (wordBoundary_at s) ps"
| "rx_ends (Alt rs) s ps = rx_ends_alt rs s ps"
| "rx_ends (Seq rs) s ps = rx_ends_seq rs s ps"
| "rx_ends_alt [] s ps = []"
| "rx_ends_alt (r # rs) s ps = rx_ends r s ps @ rx_ends_alt rs s ps"
| "rx_ends_seq [] s ps = ps"
| "rx_ends_seq (r # rs) s ps = rx_ends_seq rs s (rx_ends r s ps)"

definition rx_test :: "rx \<Rightarrow> string \<Rightarrow> bool" where
  "rx_test r s = (rx_ends r s [0 ..< Suc (length s)] \<noteq> [])"

text \<open>\<open>/\b(w1|w2|...)\b/i\<close>, the shape of most patterns of the source.\<close>

definition words :: "rx list \<Rightarrow> rx" where
  "words alts = Seq [WordB, Alt alts, WordB]"

section \<open>Task classification (task-classifier.ts)\<close>

datatype TaskType = Coding | Reasoning | Chat | Vision | Analysis | General

datatype TaskComplexity = SimpleTask | ModerateTask | ComplexTask

record TaskClassification =
  type :: TaskType
  complexity :: TaskComplexity
  requiresVision :: bool
  estimatedContextTokens :: "real option"
  requiresReasoning :: bool
  confidence :: real

text \<open>The hints: every field is optional.\<close>

record TaskClassificationHints =
  taskType :: "TaskType option"
  complexity :: "TaskComplexity option"
  requiresVision :: "bool option"
  requiresReasoning :: "bool option"

definition sep :: rx where
  "sep = Cls ''- ''"

definition TASK_PATTERNS :: "TaskType \<Rightarrow> rx list" where
  "TASK_PATTERNS t = (case t of
     Coding \<Rightarrow>
      [words [Lit ''debug'', Lit ''implement'', Lit ''refactor'', Lit ''function'', Lit ''class'',
              Lit ''method'', Lit ''variable'', Lit ''code'', Lit ''compile'', Lit ''syntax'',
              Lit ''bug'', Lit ''fix'', Lit ''error'', Lit ''exception''],
       words [Lit ''typescript'', Lit ''javascript'', Lit ''python'', Lit ''rust'', Lit ''go'',
              Lit ''java'', Lit ''c++'', Lit ''css'', Lit ''html'', Lit ''sql'', Lit ''api'',
              Lit ''endpoint''],
       words [Lit ''test'', Lit ''unit test'', Lit ''integration'', Lit ''mock'', Lit ''stub'',
              Lit ''coverage''],
       words [Lit ''git'', Lit ''commit'', Lit ''merge'', Lit ''branch'', Lit ''pull request'',
              Lit ''pr'']]
   | Reasoning \<Rightarrow>
      [words [Lit ''analyze'', Lit ''prove'', Lit ''deduce'', Lit ''calculate'', Lit ''solve'',
              Lit ''derive'', Lit ''infer'', Lit ''reason'', Lit ''logic'', Lit ''theorem''],
       words [Seq [Lit ''step'', sep, Lit ''by'', sep, Lit ''step''], Lit ''think through'',
              Lit ''work out'', Lit ''figure out'', Lit ''explain why''],
       words [Lit ''mathematical'', Lit ''equation'', Lit ''formula'', Lit ''proof'',
              Lit ''hypothesis''],
       words [Lit ''compare and contrast'', Lit ''evaluate'', Lit ''assess'', Lit ''critique'']]
   | Vision \<Rightarrow>
      [words [Lit ''image'', Lit ''photo'', Lit ''picture'', Lit ''screenshot'', Lit ''diagram'',
              Lit ''chart'', Lit ''graph'', Lit ''visual'', Lit ''ui'', Lit ''design''],
       words [Lit ''look at'', Lit ''see'', Lit ''view'', Lit ''show'', Lit ''display'',
              Lit ''render'', Lit ''draw''],
       words [Lit ''ocr'', Lit ''recognize'', Lit ''identify'', Lit ''detect'', Lit ''scan'']]
   | Analysis \<Rightarrow>
      [words [Lit ''summarize'', Lit ''summary'', Lit ''overview'', Lit ''review'', Lit ''analyze'',
              Lit ''analysis'', Lit ''evaluate'', Lit ''assessment''],
       words [Lit ''compare'', Lit ''contrast'', Lit ''difference'', Lit ''similarity'',
              Lit ''pros and cons''],
       words [Lit ''report'', Lit ''findings'', Lit ''conclusion'', Lit ''recommendation''],
       words [Lit ''data'', Lit ''metrics'', Lit ''statistics'', Lit ''trends'', Lit ''patterns'']]
   | Chat \<Rightarrow>
      [words [Lit ''hello'', Lit ''hi'', Lit ''hey'', Lit ''thanks'', Lit ''thank you'',
              Lit ''please'', Lit ''sorry'', Lit ''excuse me''],
       words [Lit ''how are you'', Lit ''what's up'', Lit ''good morning'', Lit ''good evening''],
       words [Lit ''yes'', Lit ''no'', Lit ''ok'', Lit ''okay'', Lit ''sure'', Lit ''got it'',
              Lit ''understood'']]
   | General \<Rightarrow> [])"

definition COMPLEXITY_PATTERNS_complex :: "rx list" where
  "COMPLEXITY_PATTERNS_complex =
     [words [Lit ''complex'', Lit ''complicated'', Lit ''advanced'', Lit ''sophisticated'',
             Lit ''comprehensive'', Lit ''thorough'', Lit ''detailed''],
      words [Seq [Lit ''multi'', sep, Lit ''step''], Lit ''multiple'', Lit ''several'',
             Lit ''many'', Lit ''all'', Lit ''entire'', Lit ''complete''],
      words [Lit ''architecture'', Lit ''system'', Lit ''design'', Lit ''refactor'',
             Lit ''rewrite'', Lit ''overhaul''],
      words [Lit ''optimize'', Lit ''performance'', Lit ''scale'', Lit ''production'',
             Lit ''enterprise'']]"

definition COMPLEXITY_PATTERNS_simple :: "rx list" where
  "COMPLEXITY_PATTERNS_simple =
     [words [Lit ''simple'', Lit ''basic'', Lit ''quick'', Lit ''easy'', Lit ''small'',
             Lit ''minor'', Lit ''trivial'', Lit ''just'', Lit ''only''],
      Seq [WordB, Alt [Lit ''one'', Lit ''single'', Lit ''a'', Lit ''the''], Spaces,
           Alt [Lit ''function'', Lit ''method'', Lit ''line'', Lit ''file'', Lit ''change''],
           WordB],
      words [Lit ''typo'', Lit ''rename'', Lit ''format'', Lit ''lint'', Lit ''style'']]"

text \<open>\<open>inferComplexity\<close>: the first matching rule wins.\<close>

definition inferComplexity :: "string \<Rightarrow> TaskComplexity" where
  "inferComplexity prompt =
     (if \<exists>p \<in> set COMPLEXITY_PATTERNS_complex. rx_test p prompt then ComplexTask
      else if \<exists>p \<in> set COMPLEXITY_PATTERNS_simple. rx_test p prompt then SimpleTask
      else if length prompt < 100 then SimpleTask
      else if length prompt > 500 then ComplexTask
      else ModerateTask)"

text \<open>
  The score table of \<open>classifyTask\<close>: one point per matching pattern, and three more for
  \<open>vision\<close> when the request has images.
\<close>

definition patternScore :: "string \<Rightarrow> TaskType \<Rightarrow> nat" where
  "patternScore prompt t = length (filter (\<lambda>p. rx_test p prompt) (TASK_PATTERNS t))"

definition taskScores :: "string \<Rightarrow> bool \<Rightarrow> TaskType \<Rightarrow> nat" where
  "taskScores prompt hasImages t =
     patternScore prompt t + (if t = Vision \<and> hasImages then 3 else 0)"

text \<open>The key order of the \<open>scores\<close> object, which the maximum search walks.\<close>

definition scoreOrder :: "TaskType list" where
  "scoreOrder = [Coding, Reasoning, Chat, Vision, Analysis, General]"

fun highestScoring :: "(TaskType \<Rightarrow> nat) \<Rightarrow> TaskType list \<Rightarrow> nat \<times> TaskType \<Rightarrow> nat \<times> TaskType" where
  "highestScoring scores [] best = best"
| "highestScoring scores (t # ts) (maxScore, detectedType) =
     (if scores t > maxScore then highestScoring scores ts (scores t, t)
      else highestScoring scores ts (maxScore, detectedType))"

text \<open>Optional chaining \<open>h?.f\<close> and the nullish default \<open>x ?? d\<close>.\<close>

definition opt_field :: "'h option \<Rightarrow> ('h \<Rightarrow> 'a option) \<Rightarrow> 'a option" where
  "opt_field h f = (case h of None \<Rightarrow> None | Some x \<Rightarrow> f x)"

definition nullish :: "'a option \<Rightarrow> 'a \<Rightarrow> 'a" where
  "nullish x d = (case x of None \<Rightarrow> d | Some v \<Rightarrow> v)"

definition classifyTask :: "string \<Rightarrow> bool \<Rightarrow> TaskClassificationHints option \<Rightarrow> TaskClassification" where
  "classifyTask prompt hasImages hints =
     (case opt_field hints taskType of
        Some tt \<Rightarrow>
          \<lparr> type = tt,
            complexity =
              nullish (opt_field hints TaskClassificationHints.complexity) (inferComplexity prompt),
            requiresVision = nullish (opt_field hints TaskClassificationHints.requiresVision) hasImages,
            estimatedContextTokens = None,
            requiresReasoning =
              nullish (opt_field hints TaskClassificationHints.requiresReasoning) (tt = Reasoning),
            confidence = 1 \<rparr>
      | None \<Rightarrow>
          (let scores = taskScores prompt hasImages;
               (maxScore, detectedType) = highestScoring scores scoreOrder (0, General);
               totalScore = sum_list (map scores scoreOrder);
               confidence =
                 (if totalScore > 0 then min (real maxScore / real totalScore + 0.3) 1 else 0.5);
               complexity =
                 nullish (opt_field hints TaskClassificationHints.complexity) (inferComplexity prompt);
               requiresReasoning =
                 nullish (opt_field hints TaskClassificationHints.requiresReasoning)
                   (detectedType = Reasoning \<or> complexity = ComplexTask \<or> scores Reasoning > 1)
           in \<lparr> type = detectedType,
                complexity = complexity,
                requiresVision =
                  nullish (opt_field hints TaskClassificationHints.requiresVision) hasImages,
                estimatedContextTokens = None,
                requiresReasoning = requiresReasoning,
                confidence = confidence \<rparr>))"

section \<open>Model capabilities (types.models.ts, model-capabilities.ts, model-catalog.ts)\<close>

datatype ModelCostTier = Free | Low | Medium | High

datatype InputModality = TextInput | ImageInput

record ModelCapabilities =
  taskTypes :: "TaskType list"
  maxComplexity :: TaskComplexity
  supportsVision :: bool
  supportsReasoning :: bool
  contextWindow :: real
  costTier :: ModelCostTier

text \<open>The cost figures; \<open>input\<close> and \<open>output\<close> of the source are \<open>inputCost\<close> and \<open>outputCost\<close>.\<close>

record ModelCostConfig =
  inputCost :: "real option"
  outputCost :: "real option"
  cacheRead :: "real option"
  cacheWrite :: "real option"

text \<open>A catalog entry; the field \<open>id\<close> of the source is \<open>model_id\<close> here.\<close>

record ModelCatalogEntry =
  model_id :: string
  name :: string
  provider :: string
  contextWindow :: "real option"
  reasoning :: "bool option"
  input :: "InputModality list option"
  cost :: "ModelCostConfig option"
  capabilities :: "ModelCapabilities option"

record ModelCapabilityDefaults =
  defaultContextWindow :: "real option"
  defaultCostTier :: "ModelCostTier option"

definition DEFAULT_CONTEXT_WINDOW :: real where
  "DEFAULT_CONTEXT_WINDOW = 8192"

definition MODEL_VISION_PATTERNS :: rx where
  "MODEL_VISION_PATTERNS =
     Alt [Lit ''vision'', Lit ''vlm'', Lit ''llava'', Lit ''bakllava'', Lit ''moondream'']"

definition MODEL_CODING_PATTERNS :: rx where
  "MODEL_CODING_PATTERNS =
     Alt [Lit ''code'', Lit ''coder'', Lit ''codellama'', Lit ''starcoder'', Lit ''deepseek-coder'',
          Seq [Lit ''qwen'', AnyStar, Lit ''coder'']]"

definition MODEL_REASONING_PATTERNS :: rx where
  "MODEL_REASONING_PATTERNS =
     Alt [Lit ''r1'', Lit ''reasoning'', Lit ''deepseek-r1'', Lit ''qwen-r1'']"

definition isDigit :: "char \<Rightarrow> bool" where
  "isDigit c = (let n = (of_char c :: nat) in 48 \<le> n \<and> n \<le> 57)"

text \<open>
  \<open>MODEL_CONTEXT_PATTERNS.exec(s)\<close> for \<open>/(\d+)k/i\<close>: the captured group of the leftmost
  match, that is the first run of digits that a \<open>k\<close> follows.
\<close>

fun exec_MODEL_CONTEXT_PATTERNS :: "string \<Rightarrow> string option" where
  "exec_MODEL_CONTEXT_PATTERNS [] = None"
| "exec_MODEL_CONTEXT_PATTERNS (c # cs) =
     (if isDigit c \<and>
         (case dropWhile isDigit (c # cs) of [] \<Rightarrow> False | k # _ \<Rightarrow> canon k = CHR ''K'')
      then Some (takeWhile isDigit (c # cs))
      else exec_MODEL_CONTEXT_PATTERNS cs)"

text \<open>\<open>parseInt(ds, 10)\<close> on a run of decimal digits.\<close>

definition parseInt :: "string \<Rightarrow> nat" where
  "parseInt ds = foldl (\<lambda>a c. 10 * a + ((of_char c :: nat) - 48)) 0 ds"

record NameSignals =
  supportsVision :: bool
  supportsCoding :: bool
  supportsReasoning :: bool
  contextWindow :: "real option"

definition detectModelNameCapabilities :: "string \<Rightarrow> NameSignals" where
  "detectModelNameCapabilities modelId =
     (let lowerName = toLowerCase modelId
      in \<lparr> NameSignals.supportsVision = rx_test MODEL_VISION_PATTERNS lowerName,
           NameSignals.supportsCoding = rx_test MODEL_CODING_PATTERNS lowerName,
           NameSignals.supportsReasoning = rx_test MODEL_REASONING_PATTERNS lowerName,
           NameSignals.contextWindow =
             (case exec_MODEL_CONTEXT_PATTERNS lowerName of
                None \<Rightarrow> None
              | Some ds \<Rightarrow> (if parseInt ds > 0 then Some (real (parseInt ds) * 1000) else None)) \<rparr>)"

definition inferCostTier :: "ModelCostConfig option \<Rightarrow> ModelCostTier \<Rightarrow> ModelCostTier" where
  "inferCostTier c fallback =
     (case c of
        None \<Rightarrow> fallback
      | Some k \<Rightarrow>
          (let total = nullish (inputCost k) 0 + nullish (outputCost k) 0
                       + nullish (cacheRead k) 0 + nullish (cacheWrite k) 0
           in if total = 0 then Free
              else if total \<le> 2 then Low
              else if total \<le> 10 then Medium
              else High))"

definition inferMaxComplexity :: "real \<Rightarrow> bool \<Rightarrow> TaskComplexity" where
  "inferMaxComplexity cw reasons =
     (if reasons \<or> cw \<ge> 100000 then ComplexTask
      else if cw \<ge> 32000 then ModerateTask
      else SimpleTask)"

definition inferTaskTypes :: "bool \<Rightarrow> bool \<Rightarrow> bool \<Rightarrow> real \<Rightarrow> TaskType list" where
  "inferTaskTypes sees reasons codes cw =
     [General, Chat]
     @ (if sees then [Vision] else [])
     @ (if reasons then [Reasoning] else [])
     @ (if codes then [Coding] else [])
     @ (if reasons \<or> cw \<ge> 32000 then [Analysis] else [])"

definition inferModelCapabilities ::
  "ModelCatalogEntry \<Rightarrow> ModelCapabilityDefaults option \<Rightarrow> ModelCapabilities" where
  "inferModelCapabilities model defaults =
     (case capabilities model of
        Some caps \<Rightarrow> caps
      | None \<Rightarrow>
          (let nm = trim (name model);
               detectionTarget = (if nm \<noteq> [] then nm @ '' '' @ model_id model else model_id model);
               nameSignals = detectModelNameCapabilities detectionTarget;
               sees =
                 (case ModelCatalogEntry.input model of
                    Some ins \<Rightarrow> ImageInput \<in> set ins
                  | None \<Rightarrow> NameSignals.supportsVision nameSignals);
               reasons =
                 nullish (ModelCatalogEntry.reasoning model) (NameSignals.supportsReasoning nameSignals);
               codes = NameSignals.supportsCoding nameSignals;
               cw =
                 nullish
                   (case (case ModelCatalogEntry.contextWindow model of
                            Some w \<Rightarrow> (if w > 0 then Some w else NameSignals.contextWindow nameSignals)
                          | None \<Rightarrow> NameSignals.contextWindow nameSignals) of
                      Some w \<Rightarrow> Some w
                    | None \<Rightarrow> opt_field defaults defaultContextWindow)
                   DEFAULT_CONTEXT_WINDOW
           in \<lparr> taskTypes = inferTaskTypes sees reasons codes cw,
                maxComplexity = inferMaxComplexity cw reasons,
                ModelCapabilities.supportsVision = sees,
                ModelCapabilities.supportsReasoning = reasons,
                ModelCapabilities.contextWindow = cw,
                costTier = inferCostTier (cost model) (nullish (opt_field defaults defaultCostTier) Medium) \<rparr>))"

definition modelCatalogEntryToCapabilities ::
  "ModelCatalogEntry \<Rightarrow> ModelCapabilityDefaults option \<Rightarrow> ModelCapabilities" where
  "modelCatalogEntryToCapabilities entry defaults = inferModelCapabilities entry defaults"

section \<open>Model scoring (model-scorer.ts)\<close>

record ModelScoringWeights =
  capabilityMatch :: real
  costEfficiency :: real
  performance :: real
  availability :: real

record ModelScoreBreakdown =
  capability :: real
  cost :: real
  performance :: real
  availability :: real

record ModelScore =
  provider :: string
  model :: string
  totalScore :: real
  breakdown :: ModelScoreBreakdown
  reasoning :: string

definition DEFAULT_SCORING_WEIGHTS :: ModelScoringWeights where
  "DEFAULT_SCORING_WEIGHTS =
     \<lparr> capabilityMatch = 0.4, costEfficiency = 0.3,
       ModelScoringWeights.performance = 0.2, ModelScoringWeights.availability = 0.1 \<rparr>"

definition COST_TIER_SCORES :: "ModelCostTier \<Rightarrow> real" where
  "COST_TIER_SCORES t = (case t of Free \<Rightarrow> 1.0 | Low \<Rightarrow> 0.7 | Medium \<Rightarrow> 0.4 | High \<Rightarrow> 0.2)"

definition COMPLEXITY_LEVELS :: "TaskComplexity \<Rightarrow> real" where
  "COMPLEXITY_LEVELS c = (case c of SimpleTask \<Rightarrow> 1 | ModerateTask \<Rightarrow> 2 | ComplexTask \<Rightarrow> 3)"

definition normalizeWeights :: "ModelScoringWeights \<Rightarrow> ModelScoringWeights" where
  "normalizeWeights weights =
     (let total = capabilityMatch weights + costEfficiency weights
                  + ModelScoringWeights.performance weights + ModelScoringWeights.availability weights
      in if total = 0 then DEFAULT_SCORING_WEIGHTS
         else if \<bar>total - 1.0\<bar> < 0.001 then weights
         else \<lparr> capabilityMatch = capabilityMatch weights / total,
                costEfficiency = costEfficiency weights / total,
                ModelScoringWeights.performance = ModelScoringWeights.performance weights / total,
                ModelScoringWeights.availability = ModelScoringWeights.availability weights / total \<rparr>)"

definition getModelCapabilities :: "ModelCatalogEntry \<Rightarrow> ModelCapabilities" where
  "getModelCapabilities m =
     (case capabilities m of
        Some caps \<Rightarrow> caps
      | None \<Rightarrow> modelCatalogEntryToCapabilities m None)"

text \<open>
  \<open>scoreCapabilityMatch\<close> keeps two accumulators, \<open>score\<close> and \<open>factors\<close>; each of the
  five steps below is one block of the source, in its order.
\<close>

definition scoreCapabilityMatch :: "ModelCatalogEntry \<Rightarrow> TaskClassification \<Rightarrow> real" where
  "scoreCapabilityMatch m task =
     (let caps = getModelCapabilities m;
          score = 0; factors = 0;
          taskTypeMatch = (TaskClassification.type task \<in> set (taskTypes caps));
          score = score + (if taskTypeMatch then 0.3 else 0);
          factors = factors + 0.3;
          modelComplexity = COMPLEXITY_LEVELS (maxComplexity caps);
          taskComplexity = COMPLEXITY_LEVELS (TaskClassification.complexity task);
          complexityMatch = (modelComplexity \<ge> taskComplexity);
          score = score + (if complexityMatch then 0.25 else 0.25 * (modelComplexity / taskComplexity));
          factors = factors + 0.25;
          score = score + (if TaskClassification.requiresVision task
                           then (if ModelCapabilities.supportsVision caps then 0.2 else 0)
                           else 0.2);
          factors = factors + 0.2;
          score = score + (if TaskClassification.requiresReasoning task
                           then (if ModelCapabilities.supportsReasoning caps then 0.15 else 0.05)
                           else 0.15);
          factors = factors + 0.15;
          score = score +
            (case estimatedContextTokens task of
               None \<Rightarrow> 0.1
             | Some est \<Rightarrow>
                 (if est > 0
                  then (let contextRatio = ModelCapabilities.contextWindow caps / est
                        in if contextRatio \<ge> 1 then 0.1 else 0.1 * contextRatio)
                  else 0.1));
          factors = factors + 0.1
      in if factors > 0 then score / factors else 0)"

definition scoreCostEfficiency :: "ModelCatalogEntry \<Rightarrow> real" where
  "scoreCostEfficiency m = COST_TIER_SCORES (costTier (getModelCapabilities m))"

definition scorePerformance :: "ModelCatalogEntry \<Rightarrow> TaskClassification \<Rightarrow> real" where
  "scorePerformance m task =
     (let caps = getModelCapabilities m;
          cw = ModelCapabilities.contextWindow caps;
          score = (if cw \<ge> 200000 then 0.6
                   else if cw \<ge> 128000 then 0.5
                   else if cw \<ge> 32000 then 0.4
                   else if cw \<ge> 8000 then 0.2
                   else 0.1);
          score = score +
            (if TaskClassification.requiresReasoning task \<or> TaskClassification.complexity task = ComplexTask
             then (if ModelCapabilities.supportsReasoning caps then 0.4 else 0.1)
             else 0.3)
      in min score 1.0)"

definition scoreAvailability :: "ModelCatalogEntry \<Rightarrow> real option \<Rightarrow> real" where
  "scoreAvailability m providerHealth =
     (case providerHealth of
        Some h \<Rightarrow> max 0 (min 1 h)
      | None \<Rightarrow> 1.0)"

text \<open>\<open>Math.round\<close> and the decimal text of an integer, for the percentages of \<open>explainScore\<close>.\<close>

definition Math_round :: "real \<Rightarrow> int" where
  "Math_round x = \<lfloor>x + 1 / 2\<rfloor>"

fun showNat :: "nat \<Rightarrow> string" where
  "showNat n =
     (if n < 10 then [char_of (48 + n)] else showNat (n div 10) @ [char_of (48 + n mod 10)])"

definition showInt :: "int \<Rightarrow> string" where
  "showInt i = (if i < 0 then ''-'' @ showNat (nat (- i)) else showNat (nat i))"

definition taskTypeName :: "TaskType \<Rightarrow> string" where
  "taskTypeName t = (case t of
     Coding \<Rightarrow> ''coding'' | Reasoning \<Rightarrow> ''reasoning'' | Chat \<Rightarrow> ''chat''
   | Vision \<Rightarrow> ''vision'' | Analysis \<Rightarrow> ''analysis'' | General \<Rightarrow> ''general'')"

definition explainScore :: "ModelScore \<Rightarrow> string \<Rightarrow> string" where
  "explainScore sc taskTypeText =
     (let capPct = Math_round (capability (breakdown sc) * 100);
          costPct = Math_round (ModelScoreBreakdown.cost (breakdown sc) * 100);
          perfPct = Math_round (ModelScoreBreakdown.performance (breakdown sc) * 100);
          availPct = Math_round (ModelScoreBreakdown.availability (breakdown sc) * 100)
      in ''Selected '' @ ModelScore.provider sc @ ''/'' @ model sc @ '' for '' @ taskTypeText
         @ '' task: '' @ showInt capPct @ ''% capability match, '' @ showInt costPct
         @ ''% cost efficiency, '' @ showInt perfPct @ ''% performance, '' @ showInt availPct
         @ ''% availability'')"

definition scoreModel ::
  "ModelCatalogEntry \<Rightarrow> TaskClassification \<Rightarrow> ModelScoringWeights option \<Rightarrow> real option \<Rightarrow> ModelScore" where
  "scoreModel m taskClassification weights0 providerHealth =
     (let weights = normalizeWeights (nullish weights0 DEFAULT_SCORING_WEIGHTS);
          bd = \<lparr> capability = scoreCapabilityMatch m taskClassification,
                 ModelScoreBreakdown.cost = scoreCostEfficiency m,
                 ModelScoreBreakdown.performance = scorePerformance m taskClassification,
                 ModelScoreBreakdown.availability = scoreAvailability m providerHealth \<rparr>;
          total = capability bd * capabilityMatch weights
                  + ModelScoreBreakdown.cost bd * costEfficiency weights
                  + ModelScoreBreakdown.performance bd * ModelScoringWeights.performance weights
                  + ModelScoreBreakdown.availability bd * ModelScoringWeights.availability weights
      in \<lparr> ModelScore.provider = ModelCatalogEntry.provider m,
           model = model_id m,
           totalScore = total,
           breakdown = bd,
           ModelScore.reasoning =
             explainScore
               \<lparr> ModelScore.provider = ModelCatalogEntry.provider m, model = model_id m,
                 totalScore = total, breakdown = bd, ModelScore.reasoning = [] \<rparr>
               (taskTypeName (TaskClassification.type taskClassification)) \<rparr>)"

text \<open>
  \<open>Array.prototype.toSorted(compare)\<close>.  The sort of ECMAScript is stable, and for a
  consistent comparator its result is the one stable ordering.  The 0.001 tie of
  \<open>rankModels\<close> makes its comparator not transitive; for such a comparator ECMAScript
  leaves the order to the engine.  The model follows the sort of V8, the engine of Node:
  it finds the run at the start of the array, which is either non-descending or strictly
  descending and then reversed (\<open>CountAndMakeRun\<close>), and inserts each remaining element
  at the position a binary search gives (\<open>BinaryInsertionSort\<close>).  V8 sorts in this way
  every array of fewer than 64 elements; a longer one it sorts as several such runs,
  which it merges, with the same result for a consistent comparator.  An array of fewer
  than two elements is returned as it is.
\<close>

fun countRun :: "('a \<Rightarrow> 'a \<Rightarrow> real) \<Rightarrow> bool \<Rightarrow> 'a \<Rightarrow> 'a list \<Rightarrow> nat" where
  "countRun cmp isDescending previousElement [] = 0"
| "countRun cmp isDescending previousElement (currentElement # rest) =
     (let order = cmp currentElement previousElement
      in if (if isDescending then order \<ge> 0 else order < 0) then 0
         else Suc (countRun cmp isDescending currentElement rest))"

function binarySearch :: "('a \<Rightarrow> 'a \<Rightarrow> real) \<Rightarrow> 'a \<Rightarrow> 'a list \<Rightarrow> nat \<Rightarrow> nat \<Rightarrow> nat" where
  "binarySearch cmp pivot work left right =
     (if left < right
      then (let mid = left + (right - left) div 2
            in if cmp pivot (work ! mid) < 0 then binarySearch cmp pivot work left mid
               else binarySearch cmp pivot work (mid + 1) right)
      else left)"
  by pat_completeness auto

termination
  by (relation "measure (\<lambda>(cmp, pivot, work, left, right). right - left)") auto

declare binarySearch.simps [simp del]

definition binaryInsert :: "('a \<Rightarrow> 'a \<Rightarrow> real) \<Rightarrow> 'a list \<Rightarrow> 'a \<Rightarrow> 'a list" where
  "binaryInsert cmp work pivot =
     (let left = binarySearch cmp pivot work 0 (length work)
      in take left work @ pivot # drop left work)"

definition toSorted :: "('a \<Rightarrow> 'a \<Rightarrow> real) \<Rightarrow> 'a list \<Rightarrow> 'a list" where
  "toSorted cmp xs =
     (case xs of
        x0 # x1 # rest \<Rightarrow>
          (let isDescending = cmp x1 x0 < 0;
               runLength = 2 + countRun cmp isDescending x1 rest;
               run = take runLength xs
           in foldl (binaryInsert cmp) (if isDescending then rev run else run) (drop runLength xs))
      | _ \<Rightarrow> xs)"

definition rankCompare :: "ModelScore \<Rightarrow> ModelScore \<Rightarrow> real" where
  "rankCompare a b =
     (if \<bar>totalScore a - totalScore b\<bar> > 0.001 then totalScore b - totalScore a
      else if ModelScoreBreakdown.cost (breakdown a) \<noteq> ModelScoreBreakdown.cost (breakdown b)
      then ModelScoreBreakdown.cost (breakdown b) - ModelScoreBreakdown.cost (breakdown a)
      else ModelScoreBreakdown.performance (breakdown b) - ModelScoreBreakdown.performance (breakdown a))"

definition rankModels ::
  "ModelCatalogEntry list \<Rightarrow> TaskClassification \<Rightarrow> ModelScoringWeights option \<Rightarrow> ModelScore list" where
  "rankModels models task weights =
     (if models = [] then []
      else toSorted rankCompare (map (\<lambda>m. scoreModel m task weights None) models))"

record ModelFilterRequirements =
  requiresVision :: "bool option"
  requiresReasoning :: "bool option"
  minContextWindow :: "real option"
  allowedProviders :: "string list option"

definition meetsRequirements :: "ModelFilterRequirements \<Rightarrow> ModelCatalogEntry \<Rightarrow> bool" where
  "meetsRequirements requirements m =
     (let caps = getModelCapabilities m
      in if nullish (ModelFilterRequirements.requiresVision requirements) False
            \<and> \<not> ModelCapabilities.supportsVision caps then False
         else if nullish (ModelFilterRequirements.requiresReasoning requirements) False
            \<and> \<not> ModelCapabilities.supportsReasoning caps then False
         else if (case minContextWindow requirements of
                    None \<Rightarrow> False
                  | Some w \<Rightarrow> ModelCapabilities.contextWindow caps < w) then False
         else if (case allowedProviders requirements of
                    None \<Rightarrow> False
                  | Some ps \<Rightarrow>
                      ps \<noteq> [] \<and>
                      \<not> list_ex (\<lambda>p. toLowerCase p = toLowerCase (ModelCatalogEntry.provider m)) ps)
         then False
         else True)"

definition filterModelsByCapabilities ::
  "ModelCatalogEntry list \<Rightarrow> ModelFilterRequirements \<Rightarrow> ModelCatalogEntry list" where
  "filterModelsByCapabilities models requirements = filter (meetsRequirements requirements) models"

section \<open>The task-based router (task-router.ts)\<close>

datatype RoutingStrategy = CostOptimized | PerformanceOptimized | Balanced

datatype FallbackBehavior = ManualSelection | DefaultModel

datatype ProviderPreference = PreferLocal | PreferCloud | PreferNone

text \<open>A routing rule, with the fields \<open>applyTaskRules\<close> reads.\<close>

record TaskRoutingRule =
  taskType :: TaskType
  complexity :: "TaskComplexity option"
  preferredProviders :: "string list option"
  preferredModels :: "string list option"
  excludeProviders :: "string list option"
  minContextWindow :: "real option"
  requireReasoning :: "bool option"

text \<open>The router's own configuration: the result of \<open>mergeRoutingConfig\<close>, every field set.\<close>

record RoutingConfig =
  enabled :: bool
  strategy :: RoutingStrategy
  preferLocal :: bool
  localProviders :: "string list"
  cloudProviders :: "string list"
  taskRules :: "TaskRoutingRule list"
  scoringWeights :: ModelScoringWeights
  fallbackBehavior :: FallbackBehavior

record ModelRef =
  provider :: string
  model :: string

record RoutingDecision =
  selectedScore :: ModelScore
  taskClassification :: TaskClassification
  allRankedScores :: "ModelScore list"
  reasoning :: string

record RoutingResult =
  primary :: ModelRef
  fallbacks :: "ModelRef list option"
  decision :: RoutingDecision

record TaskRoutingOptions =
  prompt :: string
  hasImages :: bool
  hints :: "TaskClassificationHints option"
  overrideModel :: "string option"
  allowedProviders :: "string list option"

record TaskBasedModelRouter =
  config :: RoutingConfig
  catalog :: "ModelCatalogEntry list"

definition parseOverrideModelRef :: "string \<Rightarrow> ModelRef" where
  "parseOverrideModelRef ov =
     (let trimmed = trim ov
      in case indexOf_slash trimmed of
           None \<Rightarrow> \<lparr> ModelRef.provider = ''anthropic'', ModelRef.model = trimmed \<rparr>
         | Some slashIndex \<Rightarrow>
             \<lparr> ModelRef.provider = trim (take slashIndex trimmed),
               ModelRef.model = trim (drop (slashIndex + 1) trimmed) \<rparr>)"

definition buildManualOverrideRoutingResult ::
  "string \<Rightarrow> string \<Rightarrow> bool \<Rightarrow> TaskClassificationHints option \<Rightarrow> RoutingResult" where
  "buildManualOverrideRoutingResult ov prompt0 hasImages0 hints0 =
     (let prim = parseOverrideModelRef ov;
          tc = classifyTask prompt0 hasImages0 hints0;
          dec = \<lparr> selectedScore =
                    \<lparr> ModelScore.provider = ModelRef.provider prim,
                      ModelScore.model = ModelRef.model prim,
                      totalScore = 1.0,
                      breakdown = \<lparr> capability = 1.0, ModelScoreBreakdown.cost = 1.0,
                                    ModelScoreBreakdown.performance = 1.0,
                                    ModelScoreBreakdown.availability = 1.0 \<rparr>,
                      ModelScore.reasoning =
                        ''Manual override: '' @ ModelRef.provider prim @ ''/'' @ ModelRef.model prim \<rparr>,
                  taskClassification = tc,
                  allRankedScores = [],
                  RoutingDecision.reasoning =
                    ''Manual model override: '' @ ModelRef.provider prim @ ''/'' @ ModelRef.model prim \<rparr>
      in \<lparr> primary = prim, fallbacks = None, decision = dec \<rparr>)"

definition handleModelOverride ::
  "TaskBasedModelRouter \<Rightarrow> string \<Rightarrow> string \<Rightarrow> bool \<Rightarrow> TaskClassificationHints option \<Rightarrow> RoutingResult" where
  "handleModelOverride router ov prompt0 hasImages0 hints0 =
     buildManualOverrideRoutingResult ov prompt0 hasImages0 hints0"

definition applyRoutingStrategy :: "TaskBasedModelRouter \<Rightarrow> ModelScoringWeights \<Rightarrow> ModelScoringWeights" where
  "applyRoutingStrategy router baseWeights =
     (case strategy (config router) of
        CostOptimized \<Rightarrow>
          normalizeWeights
            \<lparr> capabilityMatch = capabilityMatch baseWeights * 0.8,
              costEfficiency = 0.5,
              ModelScoringWeights.performance = 0.1,
              ModelScoringWeights.availability = ModelScoringWeights.availability baseWeights \<rparr>
      | PerformanceOptimized \<Rightarrow>
          normalizeWeights
            \<lparr> capabilityMatch = capabilityMatch baseWeights * 0.8,
              costEfficiency = 0.1,
              ModelScoringWeights.performance = 0.5,
              ModelScoringWeights.availability = ModelScoringWeights.availability baseWeights \<rparr>
      | Balanced \<Rightarrow> normalizeWeights baseWeights)"

text \<open>\<open>applyTaskRules\<close>: the rules that match the task, then one pass of the loop body per rule.\<close>

definition ruleMatches :: "TaskClassification \<Rightarrow> TaskRoutingRule \<Rightarrow> bool" where
  "ruleMatches task rule =
     (if TaskRoutingRule.taskType rule \<noteq> TaskClassification.type task then False
      else if (case TaskRoutingRule.complexity rule of
                 None \<Rightarrow> False
               | Some c \<Rightarrow> c \<noteq> TaskClassification.complexity task) then False
      else True)"

definition applyTaskRule ::
  "TaskClassification \<Rightarrow> TaskRoutingRule \<Rightarrow> ModelCatalogEntry list \<Rightarrow> ModelCatalogEntry list" where
  "applyTaskRule task rule filtered0 =
     (let filtered1 =
            (case excludeProviders rule of
               None \<Rightarrow> filtered0
             | Some ex \<Rightarrow>
                 if ex \<noteq> []
                 then filter (\<lambda>entry. toLowerCase (ModelCatalogEntry.provider entry)
                                        \<notin> set (map toLowerCase ex)) filtered0
                 else filtered0);
          filtered2 =
            (case preferredProviders rule of
               None \<Rightarrow> filtered1
             | Some pp \<Rightarrow>
                 if pp \<noteq> []
                 then (let preferred = filter (\<lambda>entry. toLowerCase (ModelCatalogEntry.provider entry)
                                                        \<in> set (map toLowerCase pp)) filtered1
                       in if preferred \<noteq> [] then preferred else filtered1)
                 else filtered1);
          filtered3 =
            (case preferredModels rule of
               None \<Rightarrow> filtered2
             | Some pm \<Rightarrow>
                 if pm \<noteq> []
                 then (let preferred =
                             filter (\<lambda>entry. toLowerCase (ModelCatalogEntry.provider entry @ ''/'' @ model_id entry)
                                             \<in> set (map toLowerCase pm)) filtered2
                       in if preferred \<noteq> [] then preferred else filtered2)
                 else filtered2)
      in filterModelsByCapabilities filtered3
           \<lparr> ModelFilterRequirements.requiresVision = Some (TaskClassification.requiresVision task),
             ModelFilterRequirements.requiresReasoning =
               Some (nullish (requireReasoning rule) (TaskClassification.requiresReasoning task)),
             ModelFilterRequirements.minContextWindow = TaskRoutingRule.minContextWindow rule,
             ModelFilterRequirements.allowedProviders = None \<rparr>)"

definition applyTaskRules ::
  "TaskBasedModelRouter \<Rightarrow> ModelCatalogEntry list \<Rightarrow> TaskClassification \<Rightarrow> ModelCatalogEntry list" where
  "applyTaskRules router cat task =
     (let rules = taskRules (config router)
      in if rules = [] then cat
         else (let matchingRules = filter (ruleMatches task) rules
               in if matchingRules = [] then cat
                  else foldl (\<lambda>filtered rule. applyTaskRule task rule filtered) cat matchingRules))"

definition boostScore :: "string list \<Rightarrow> ModelScore \<Rightarrow> ModelScore" where
  "boostScore preferredProviderSet sc =
     (if toLowerCase (ModelScore.provider sc) \<in> set preferredProviderSet
      then sc \<lparr> totalScore := min (totalScore sc * 1.1) 1.0 \<rparr>
      else sc)"

definition applyProviderPreference ::
  "TaskBasedModelRouter \<Rightarrow> ModelScore list \<Rightarrow> TaskClassification \<Rightarrow> ModelScore list \<times> ProviderPreference" where
  "applyProviderPreference router rankedScores tc =
     (let localProviderSet = map toLowerCase (localProviders (config router));
          cloudProviderSet = map toLowerCase (cloudProviders (config router));
          prefersCloud = (TaskClassification.complexity tc = ComplexTask
                          \<or> TaskClassification.requiresReasoning tc);
          prefersLocal = (preferLocal (config router)
                          \<and> TaskClassification.complexity tc = SimpleTask \<and> \<not> prefersCloud);
          (preference, preferredProviderSet) =
            (if prefersCloud \<and> cloudProviderSet \<noteq> [] then (PreferCloud, Some cloudProviderSet)
             else if prefersLocal \<and> localProviderSet \<noteq> [] then (PreferLocal, Some localProviderSet)
             else (PreferNone, None))
      in case preferredProviderSet of
           None \<Rightarrow> (rankedScores, preference)
         | Some pset \<Rightarrow>
             (toSorted (\<lambda>a b. totalScore b - totalScore a) (map (boostScore pset) rankedScores),
              preference))"

text \<open>
  The loop of \<open>generateFallbackList\<close>, shared by the router's method and the exported
  function: \<open>keyOf\<close> and \<open>item\<close> are what the body computes of a score, \<open>acc\<close> is the
  list built so far.  The maximum is a count.
\<close>

definition scoreKey :: "ModelScore \<Rightarrow> string" where
  "scoreKey sc = toLowerCase (ModelScore.provider sc @ ''/'' @ ModelScore.model sc)"

fun fallbackLoop :: "string \<Rightarrow> nat \<Rightarrow> (ModelScore \<Rightarrow> 'a) \<Rightarrow> 'a list \<Rightarrow> ModelScore list \<Rightarrow> 'a list" where
  "fallbackLoop primaryKey maxFallbacks item acc [] = acc"
| "fallbackLoop primaryKey maxFallbacks item acc (sc # rest) =
     (if length acc \<ge> maxFallbacks then acc
      else if scoreKey sc = primaryKey then fallbackLoop primaryKey maxFallbacks item acc rest
      else fallbackLoop primaryKey maxFallbacks item (acc @ [item sc]) rest)"

definition refOfScore :: "ModelScore \<Rightarrow> ModelRef" where
  "refOfScore sc = \<lparr> ModelRef.provider = ModelScore.provider sc, ModelRef.model = ModelScore.model sc \<rparr>"

text \<open>The private method of the router; \<open>None\<close> is \<open>undefined\<close>.\<close>

definition router_generateFallbackList ::
  "ModelScore list \<Rightarrow> ModelRef \<Rightarrow> nat \<Rightarrow> ModelRef list option" where
  "router_generateFallbackList rankedScores prim maxFallbacks =
     (let primaryKey = toLowerCase (ModelRef.provider prim @ ''/'' @ ModelRef.model prim);
          fbs = fallbackLoop primaryKey maxFallbacks refOfScore [] rankedScores
      in if length fbs > 0 then Some fbs else None)"

text \<open>The exported function: the fallbacks as \<open>provider/model\<close> strings.\<close>

definition generateFallbackList :: "ModelScore list \<Rightarrow> ModelRef \<Rightarrow> nat \<Rightarrow> string list" where
  "generateFallbackList rankedScores prim maxFallbacks =
     (let primaryKey = toLowerCase (ModelRef.provider prim @ ''/'' @ ModelRef.model prim)
      in fallbackLoop primaryKey maxFallbacks
           (\<lambda>sc. ModelScore.provider sc @ ''/'' @ ModelScore.model sc) [] rankedScores)"

definition defaultMaxFallbacks :: nat where
  "defaultMaxFallbacks = 3"

definition strategyName :: "RoutingStrategy \<Rightarrow> string" where
  "strategyName st = (case st of
     CostOptimized \<Rightarrow> ''cost-optimized''
   | PerformanceOptimized \<Rightarrow> ''performance-optimized''
   | Balanced \<Rightarrow> ''balanced'')"

definition preferenceName :: "ProviderPreference \<Rightarrow> string" where
  "preferenceName pr = (case pr of
     PreferLocal \<Rightarrow> ''local'' | PreferCloud \<Rightarrow> ''cloud'' | PreferNone \<Rightarrow> ''none'')"

text \<open>
  Lines 176 to 197 of \<open>selectModelForTask\<close>: the catalog that is ranked.  First the
  caller's allowed providers, then the task rules, each with its fallback when nothing
  is left.
\<close>

definition allowedCatalog :: "TaskBasedModelRouter \<Rightarrow> string list option \<Rightarrow> ModelCatalogEntry list" where
  "allowedCatalog router allowed =
     (case allowed of
        None \<Rightarrow> catalog router
      | Some ps \<Rightarrow>
          if length ps > 0
          then (let filteredCatalog =
                      filterModelsByCapabilities (catalog router)
                        \<lparr> ModelFilterRequirements.requiresVision = None,
                          ModelFilterRequirements.requiresReasoning = None,
                          ModelFilterRequirements.minContextWindow = None,
                          ModelFilterRequirements.allowedProviders = Some ps \<rparr>
                in if length filteredCatalog = 0 then catalog router else filteredCatalog)
          else catalog router)"

definition routedCatalog ::
  "TaskBasedModelRouter \<Rightarrow> string list option \<Rightarrow> TaskClassification \<Rightarrow> ModelCatalogEntry list" where
  "routedCatalog router allowed tc =
     (let filteredCatalog = applyTaskRules router (allowedCatalog router allowed) tc
      in if length filteredCatalog = 0 then catalog router else filteredCatalog)"

text \<open>
  \<open>selectModelForTask\<close>; \<open>None\<close> is \<open>null\<close>.  The logging calls are left out.  Nothing in
  the \<open>try\<close> block raises on the values of the model but the read of the first ranked
  score, whose failure the \<open>catch\<close> turns into \<open>null\<close>.
\<close>

definition selectModelForTask :: "TaskBasedModelRouter \<Rightarrow> TaskRoutingOptions \<Rightarrow> RoutingResult option" where
  "selectModelForTask router options =
     (case (case overrideModel options of
              None \<Rightarrow> None
            | Some ov \<Rightarrow> if trim ov \<noteq> [] then Some ov else None) of
        Some ov \<Rightarrow>
          Some (handleModelOverride router ov (prompt options) (hasImages options) (hints options))
      | None \<Rightarrow>
        if \<not> enabled (config router) then None
        else
        (let tc = classifyTask (prompt options) (hasImages options) (hints options);
             filteredCatalog = routedCatalog router (TaskRoutingOptions.allowedProviders options) tc;
             adjustedWeights = applyRoutingStrategy router (scoringWeights (config router));
             rankedScores = rankModels filteredCatalog tc (Some adjustedWeights)
         in if length rankedScores = 0 then None
            else
              (let (finalRankedScores, preference) = applyProviderPreference router rankedScores tc
               in case finalRankedScores of
                    [] \<Rightarrow> None
                  | sel # _ \<Rightarrow>
                      (let prim = \<lparr> ModelRef.provider = ModelScore.provider sel,
                                     ModelRef.model = ModelScore.model sel \<rparr>;
                           fbs = router_generateFallbackList finalRankedScores prim defaultMaxFallbacks;
                           baseReasoning = explainScore sel (taskTypeName (TaskClassification.type tc));
                           why = ''Task-based routing: '' @ baseReasoning @ '' | Strategy: ''
                                 @ strategyName (strategy (config router))
                                 @ '' | Provider preference: '' @ preferenceName preference;
                           dec = \<lparr> selectedScore = sel, taskClassification = tc,
                                   allRankedScores = finalRankedScores,
                                   RoutingDecision.reasoning = why \<rparr>
                       in Some \<lparr> primary = prim, fallbacks = fbs, decision = dec \<rparr>))))"

section \<open>The model catalog and its cache (model-catalog.ts)\<close>

text \<open>What discovery reports of a model, as \<open>loadModelCatalog\<close> reads it.\<close>

record DiscoveredModel =
  model_id :: string
  name :: "string option"
  provider :: string
  contextWindow :: "real option"
  reasoning :: "bool option"
  input :: "InputModality list option"
  cost :: "ModelCostConfig option"
  capabilities :: "ModelCapabilities option"

definition resolveModelCost :: "ModelCostConfig option \<Rightarrow> ModelCostConfig option" where
  "resolveModelCost v =
     (case v of
        None \<Rightarrow> None
      | Some c \<Rightarrow>
          if inputCost c = None \<and> outputCost c = None \<and> cacheRead c = None \<and> cacheWrite c = None
          then None else Some c)"

text \<open>One pass of the loop over the discovered entries: \<open>None\<close> is \<open>continue\<close>.\<close>

definition catalogEntryOf :: "DiscoveredModel \<Rightarrow> ModelCatalogEntry option" where
  "catalogEntryOf entry =
     (let i = trim (DiscoveredModel.model_id entry)
      in if i = [] then None
         else (let p = trim (DiscoveredModel.provider entry)
               in if p = [] then None
                  else (let n0 = trim (nullish (DiscoveredModel.name entry) i);
                            n = (if n0 \<noteq> [] then n0 else i)
                        in Some \<lparr> ModelCatalogEntry.model_id = i,
                                  ModelCatalogEntry.name = n,
                                  ModelCatalogEntry.provider = p,
                                  ModelCatalogEntry.contextWindow =
                                    (case DiscoveredModel.contextWindow entry of
                                       None \<Rightarrow> None
                                     | Some w \<Rightarrow> if w > 0 then Some w else None),
                                  ModelCatalogEntry.reasoning = DiscoveredModel.reasoning entry,
                                  ModelCatalogEntry.input = DiscoveredModel.input entry,
                                  ModelCatalogEntry.cost = resolveModelCost (DiscoveredModel.cost entry),
                                  ModelCatalogEntry.capabilities = DiscoveredModel.capabilities entry \<rparr>)))"

definition catalogEntriesOf :: "DiscoveredModel list \<Rightarrow> ModelCatalogEntry list" where
  "catalogEntriesOf entries = List.map_filter catalogEntryOf entries"

text \<open>
  \<open>sortModels\<close>: by provider, then by name.  \<open>String.prototype.localeCompare\<close> depends on
  the host's locale; it is the parameter \<open>lc\<close>.
\<close>

definition sortModels :: "(string \<Rightarrow> string \<Rightarrow> real) \<Rightarrow> ModelCatalogEntry list \<Rightarrow> ModelCatalogEntry list" where
  "sortModels lc entries =
     toSorted (\<lambda>a b. let p = lc (ModelCatalogEntry.provider a) (ModelCatalogEntry.provider b)
                      in if p \<noteq> 0 then p else lc (ModelCatalogEntry.name a) (ModelCatalogEntry.name b))
       entries"

text \<open>
  \<open>loadModelCatalog\<close> is an \<open>async\<close> function over two module variables.  The model is a
  state machine with two kinds of step, each of which the single thread of JavaScript
  runs without interruption:
  \<^item> a call of \<open>loadModelCatalog\<close>, which runs up to the first \<open>await\<close> of the body: it
    clears the cache when asked to bypass it, returns the cached promise if there is one,
    and otherwise starts the body of a new promise and caches it;
  \<^item> the end of the body of a pending promise, once discovery has answered: either
    the \<open>try\<close> block reaches its \<open>return\<close> with the entries discovered, or something in
    it is rejected or raises after the first \<open>await\<close>, and the \<open>catch\<close> block runs.
  A promise is its handle, the index in \<open>promises\<close> at which its state is kept: \<open>None\<close>
  while pending, then the list it resolved to.  The promise a caller gets follows the
  cached one; the model gives the caller the handle of the cached one.  The length of
  \<open>promises\<close> is the number of times the body, and with it discovery, was started.  The
  functions for tests, which reset the module variables, are not steps.

  The body calls \<open>loadConfig()\<close>, when the caller gives no config, before its first
  \<open>await\<close>.  That function is not part of these sources; whether it raises is a
  parameter of the call.  If it does, the \<open>catch\<close> block runs within the call, before the
  assignment that stores the new promise in the cache.
\<close>

datatype DiscoveryOutcome =
    Discovered "DiscoveredModel list"
  | Failed "DiscoveredModel list"

text \<open>
  \<open>Discovered es\<close>: the registry listed \<open>es\<close> and the loop went through all of them.
  \<open>Failed es\<close>: an exception or rejection reached the \<open>catch\<close> block after the loop had
  gone through \<open>es\<close> (none when the failure came before the loop).
\<close>

record CatalogState =
  modelCatalogPromise :: "nat option"
  hasLoggedModelCatalogError :: bool
  promises :: "ModelCatalogEntry list option list"
  warnings :: nat

definition initialCatalogState :: CatalogState where
  "initialCatalogState =
     \<lparr> modelCatalogPromise = None, hasLoggedModelCatalogError = False, promises = [], warnings = 0 \<rparr>"

definition isPending :: "CatalogState \<Rightarrow> nat \<Rightarrow> bool" where
  "isPending st h = (h < length (promises st) \<and> promises st ! h = None)"

text \<open>
  The call: \<open>useCache\<close> is \<open>params?.useCache\<close>, \<open>raisesAtOnce\<close> tells whether the body
  raises before its first \<open>await\<close>; the result is the promise returned.
\<close>

definition loadModelCatalog :: "bool option \<Rightarrow> bool \<Rightarrow> CatalogState \<Rightarrow> nat \<times> CatalogState" where
  "loadModelCatalog useCache raisesAtOnce st =
     (let st1 = (if useCache = Some False then st \<lparr> modelCatalogPromise := None \<rparr> else st)
      in case modelCatalogPromise st1 of
           Some h \<Rightarrow> (h, st1)
         | None \<Rightarrow>
             (let h = length (promises st1);
                  st2 =
                    (if raisesAtOnce
                     then (let st3 = (if \<not> hasLoggedModelCatalogError st1
                                      then st1 \<lparr> hasLoggedModelCatalogError := True,
                                                 warnings := warnings st1 + 1 \<rparr>
                                      else st1)
                           in st3 \<lparr> modelCatalogPromise := None, promises := promises st3 @ [Some []] \<rparr>)
                     else st1 \<lparr> promises := promises st1 @ [None] \<rparr>)
              in (h, st2 \<lparr> modelCatalogPromise := Some h \<rparr>)))"

text \<open>The end of the body of the promise \<open>h\<close>; a promise that is not pending has no such step.\<close>

definition settle ::
  "(string \<Rightarrow> string \<Rightarrow> real) \<Rightarrow> nat \<Rightarrow> DiscoveryOutcome \<Rightarrow> CatalogState \<Rightarrow> CatalogState" where
  "settle lc h outcome st =
     (if \<not> isPending st h then st
      else
        (case outcome of
           Discovered es \<Rightarrow>
             (let models = catalogEntriesOf es;
                  st1 = (if length models = 0 then st \<lparr> modelCatalogPromise := None \<rparr> else st)
              in st1 \<lparr> promises := (promises st1) [h := Some (sortModels lc models)] \<rparr>)
         | Failed es \<Rightarrow>
             (let models = catalogEntriesOf es;
                  st1 = (if \<not> hasLoggedModelCatalogError st
                         then st \<lparr> hasLoggedModelCatalogError := True, warnings := warnings st + 1 \<rparr>
                         else st);
                  st2 = st1 \<lparr> modelCatalogPromise := None \<rparr>
              in st2 \<lparr> promises :=
                         (promises st2) [h := Some (if length models > 0 then sortModels lc models else [])] \<rparr>)))"

datatype CatalogEvent = Load "bool option" bool | Settle nat DiscoveryOutcome

definition catalogStep :: "(string \<Rightarrow> string \<Rightarrow> real) \<Rightarrow> CatalogState \<Rightarrow> CatalogEvent \<Rightarrow> CatalogState" where
  "catalogStep lc st ev =
     (case ev of
        Load useCache raisesAtOnce \<Rightarrow> snd (loadModelCatalog useCache raisesAtOnce st)
      | Settle h outcome \<Rightarrow> settle lc h outcome st)"

definition catalogRun :: "(string \<Rightarrow> string \<Rightarrow> real) \<Rightarrow> CatalogEvent list \<Rightarrow> CatalogState" where
  "catalogRun lc evs = foldl (catalogStep lc) initialCatalogState evs"

section \<open>Notions of the statements\<close>

text \<open>The sum of the four components of a weight set, and weights none of which is negative.\<close>

definition weightSum :: "ModelScoringWeights \<Rightarrow> real" where
  "weightSum w = capabilityMatch w + costEfficiency w
                 + ModelScoringWeights.performance w + ModelScoringWeights.availability w"

definition nonNegativeWeights :: "ModelScoringWeights \<Rightarrow> bool" where
  "nonNegativeWeights w =
     (0 \<le> capabilityMatch w \<and> 0 \<le> costEfficiency w
      \<and> 0 \<le> ModelScoringWeights.performance w \<and> 0 \<le> ModelScoringWeights.availability w)"

text \<open>
  The order of the ranking between two neighbours: the first has the greater total score
  by more than 0.001, or the totals are within 0.001 and the first has the greater cost
  score, or the same cost score and a performance score that is not less.
\<close>

definition rankedBefore :: "ModelScore \<Rightarrow> ModelScore \<Rightarrow> bool" where
  "rankedBefore a b =
     (totalScore a > totalScore b + 0.001
      \<or> (\<bar>totalScore a - totalScore b\<bar> \<le> 0.001
          \<and> (ModelScoreBreakdown.cost (breakdown a) > ModelScoreBreakdown.cost (breakdown b)
              \<or> (ModelScoreBreakdown.cost (breakdown a) = ModelScoreBreakdown.cost (breakdown b)
                  \<and> ModelScoreBreakdown.performance (breakdown a)
                      \<ge> ModelScoreBreakdown.performance (breakdown b)))))"

text \<open>A series of calls of \<open>loadModelCatalog\<close>, one after the other, with nothing in between.\<close>

definition loadAll :: "(bool option \<times> bool) list \<Rightarrow> CatalogState \<Rightarrow> CatalogState" where
  "loadAll calls st = foldl (\<lambda>s (useCache, raisesAtOnce). snd (loadModelCatalog useCache raisesAtOnce s)) st calls"

text \<open>
  A consistent comparator, as far as the sort reads it: the sort only asks whether
  \<open>cmp a b < 0\<close>, that is whether \<open>a\<close> has to come before \<open>b\<close>.  This relation is
  asymmetric, and its complement is transitive.
\<close>

definition consistentComparator :: "('a \<Rightarrow> 'a \<Rightarrow> real) \<Rightarrow> bool" where
  "consistentComparator cmp =
     ((\<forall>a b. cmp a b < 0 \<longrightarrow> \<not> cmp b a < 0)
      \<and> (\<forall>a b c. \<not> cmp a b < 0 \<and> \<not> cmp b c < 0 \<longrightarrow> \<not> cmp a c < 0))"

text \<open>A call that bypasses the cache: \<open>loadModelCatalog({ useCache: false })\<close>.\<close>

definition bypassesCache :: "CatalogEvent \<Rightarrow> bool" where
  "bypassesCache ev = (case ev of Load useCache raisesAtOnce \<Rightarrow> useCache = Some False | Settle h outcome \<Rightarrow> False)"

section \<open>Inputs of the examples\<close>

text \<open>\<open>DEFAULT_ROUTING_CONFIG\<close> of the source: routing is disabled.\<close>

definition DEFAULT_ROUTING_CONFIG :: RoutingConfig where
  "DEFAULT_ROUTING_CONFIG =
     \<lparr> enabled = False, strategy = Balanced, preferLocal = True,
       localProviders = [''ollama''],
       cloudProviders = [''anthropic'', ''openai'', ''google''],
       taskRules = [], scoringWeights = DEFAULT_SCORING_WEIGHTS,
       fallbackBehavior = DefaultModel \<rparr>"

definition overrideOptions :: "string \<Rightarrow> TaskRoutingOptions" where
  "overrideOptions ov =
     \<lparr> prompt = ''Fix the bug'', hasImages = False, hints = None,
       overrideModel = Some ov, TaskRoutingOptions.allowedProviders = None \<rparr>"

text \<open>A prompt of 120 question marks, and a prompt of one word.\<close>

definition questionMarks :: string where
  "questionMarks = replicate 120 CHR ''?''"

definition manyPrompt :: string where
  "manyPrompt = ''many''"

text \<open>A ranking for \<open>generateFallbackList\<close>, from the tests of the source.\<close>

definition exampleScore :: "string \<Rightarrow> string \<Rightarrow> real \<Rightarrow> ModelScore" where
  "exampleScore p m t =
     \<lparr> ModelScore.provider = p, ModelScore.model = m, totalScore = t,
       breakdown = \<lparr> capability = t, ModelScoreBreakdown.cost = 1,
                     ModelScoreBreakdown.performance = t, ModelScoreBreakdown.availability = 1 \<rparr>,
       ModelScore.reasoning = [] \<rparr>"

definition exampleRanking :: "ModelScore list" where
  "exampleRanking =
     [exampleScore ''anthropic'' ''claude-sonnet-4-20250514'' 0.9,
      exampleScore ''openai'' ''gpt-4o'' 0.85,
      exampleScore ''openai'' ''o1'' 0.8,
      exampleScore ''ollama'' ''llama3.2'' 0.7]"

definition mkWeights :: "real \<Rightarrow> real \<Rightarrow> real \<Rightarrow> real \<Rightarrow> ModelScoringWeights" where
  "mkWeights a b c d =
     \<lparr> capabilityMatch = a, costEfficiency = b,
       ModelScoringWeights.performance = c, ModelScoringWeights.availability = d \<rparr>"

text \<open>Catalog entries with an explicit capability profile, tasks and weights.\<close>

definition mkCapabilities ::
  "TaskType list \<Rightarrow> TaskComplexity \<Rightarrow> bool \<Rightarrow> bool \<Rightarrow> real \<Rightarrow> ModelCostTier \<Rightarrow> ModelCapabilities" where
  "mkCapabilities tts mx v r cw tier =
     \<lparr> taskTypes = tts, maxComplexity = mx, ModelCapabilities.supportsVision = v,
       ModelCapabilities.supportsReasoning = r, ModelCapabilities.contextWindow = cw,
       costTier = tier \<rparr>"

definition mkEntry :: "string \<Rightarrow> string \<Rightarrow> string \<Rightarrow> ModelCapabilities \<Rightarrow> ModelCatalogEntry" where
  "mkEntry i n p caps =
     \<lparr> ModelCatalogEntry.model_id = i, ModelCatalogEntry.name = n, ModelCatalogEntry.provider = p,
       ModelCatalogEntry.contextWindow = Some (ModelCapabilities.contextWindow caps),
       ModelCatalogEntry.reasoning = Some (ModelCapabilities.supportsReasoning caps),
       ModelCatalogEntry.input =
         Some (if ModelCapabilities.supportsVision caps then [TextInput, ImageInput] else [TextInput]),
       ModelCatalogEntry.cost = None,
       ModelCatalogEntry.capabilities = Some caps \<rparr>"

definition mkTask :: "TaskType \<Rightarrow> TaskComplexity \<Rightarrow> bool \<Rightarrow> bool \<Rightarrow> real option \<Rightarrow> TaskClassification" where
  "mkTask t c v r est =
     \<lparr> type = t, TaskClassification.complexity = c, TaskClassification.requiresVision = v,
       estimatedContextTokens = est, TaskClassification.requiresReasoning = r, confidence = 0.9 \<rparr>"

definition ollamaCodingModel :: ModelCatalogEntry where
  "ollamaCodingModel =
     mkEntry ''codellama:7b'' ''Code Llama 7B'' ''ollama''
       (mkCapabilities [Coding, General, Chat] ModerateTask False False 128000 Free)"

definition freeReasoningModel :: ModelCatalogEntry where
  "freeReasoningModel =
     mkEntry ''deepseek-r1'' ''DeepSeek R1'' ''ollama''
       (mkCapabilities [Reasoning, General, Chat] ComplexTask False True 200000 Free)"

definition simpleCodingTask :: TaskClassification where
  "simpleCodingTask = mkTask Coding SimpleTask False False None"

definition complexReasoningTask :: TaskClassification where
  "complexReasoningTask = mkTask Reasoning ComplexTask False True None"

definition nearUnitWeights :: ModelScoringWeights where
  "nearUnitWeights = mkWeights 0.4005 0.3 0.2 0.1"

text \<open>
  Entries that differ in context window and cost tier, a task that estimates 1000
  tokens, and weights that count the capability score only.
\<close>

definition nearContextModel :: ModelCatalogEntry where
  "nearContextModel =
     mkEntry ''small'' ''Small'' ''ollama'' (mkCapabilities [Coding] ComplexTask False False 995 Free)"

definition fullContextModel :: ModelCatalogEntry where
  "fullContextModel =
     mkEntry ''large'' ''Large'' ''openai'' (mkCapabilities [Coding] ComplexTask False False 1000 High)"

definition midContextModel :: ModelCatalogEntry where
  "midContextModel =
     mkEntry ''middle'' ''Middle'' ''google'' (mkCapabilities [Coding] ComplexTask False False 993 Medium)"

definition lowContextModel :: ModelCatalogEntry where
  "lowContextModel =
     mkEntry ''tiny'' ''Tiny'' ''ollama'' (mkCapabilities [Coding] ComplexTask False False 986 Free)"

definition localSmallModel :: ModelCatalogEntry where
  "localSmallModel =
     mkEntry ''phi3:mini'' ''Phi 3 Mini'' ''ollama''
       (mkCapabilities [Coding, General, Chat] ComplexTask False False 12000 Free)"

definition hostedLargeModel :: ModelCatalogEntry where
  "hostedLargeModel =
     mkEntry ''gpt-4o-mini'' ''GPT-4o mini'' ''openai''
       (mkCapabilities [Coding, General, Chat] ComplexTask False False 128000 Low)"

definition longCodingTask :: TaskClassification where
  "longCodingTask = mkTask Coding SimpleTask False False (Some 50000)"

definition thousandTokenTask :: TaskClassification where
  "thousandTokenTask = mkTask Coding SimpleTask False False (Some 1000)"

definition capabilityOnlyWeights :: ModelScoringWeights where
  "capabilityOnlyWeights = mkWeights 1 0 0 0"

text \<open>
  A router with one rule, which requires reasoning of the models for general tasks, over
  a catalog of a local model without reasoning and a cloud model with it; a general task,
  and the options that hint it and allow the local provider only.
\<close>

definition cloudReasoningModel :: ModelCatalogEntry where
  "cloudReasoningModel =
     mkEntry ''claude-3-opus'' ''Claude 3 Opus'' ''anthropic''
       (mkCapabilities [Coding, Reasoning, Analysis, General, Chat, Vision] ComplexTask True True 200000 High)"

definition reasoningRule :: TaskRoutingRule where
  "reasoningRule =
     \<lparr> TaskRoutingRule.taskType = General, TaskRoutingRule.complexity = None,
       preferredProviders = None, preferredModels = None, excludeProviders = None,
       TaskRoutingRule.minContextWindow = None, requireReasoning = Some True \<rparr>"

definition ruleRouter :: TaskBasedModelRouter where
  "ruleRouter =
     \<lparr> config = DEFAULT_ROUTING_CONFIG \<lparr> enabled := True, taskRules := [reasoningRule] \<rparr>,
       catalog = [ollamaCodingModel, cloudReasoningModel] \<rparr>"

definition simpleGeneralTask :: TaskClassification where
  "simpleGeneralTask = (mkTask General SimpleTask False False None) \<lparr> confidence := 1 \<rparr>"

definition hintedGeneralOptions :: TaskRoutingOptions where
  "hintedGeneralOptions =
     \<lparr> prompt = [], hasImages = False,
       hints = Some \<lparr> TaskClassificationHints.taskType = Some General,
                      TaskClassificationHints.complexity = Some SimpleTask,
                      TaskClassificationHints.requiresVision = None,
                      TaskClassificationHints.requiresReasoning = None \<rparr>,
       overrideModel = None,
       TaskRoutingOptions.allowedProviders = Some [''ollama''] \<rparr>"

text \<open>A discovered model and its catalog entry; a collation that tells no two strings apart.\<close>

definition plainModel :: DiscoveredModel where
  "plainModel =
     \<lparr> DiscoveredModel.model_id = ''m1'', DiscoveredModel.name = None,
       DiscoveredModel.provider = ''p1'', DiscoveredModel.contextWindow = None,
       DiscoveredModel.reasoning = None, DiscoveredModel.input = None,
       DiscoveredModel.cost = None, DiscoveredModel.capabilities = None \<rparr>"

definition plainEntry :: ModelCatalogEntry where
  "plainEntry =
     \<lparr> ModelCatalogEntry.model_id = ''m1'', ModelCatalogEntry.name = ''m1'',
       ModelCatalogEntry.provider = ''p1'', ModelCatalogEntry.contextWindow = None,
       ModelCatalogEntry.reasoning = None, ModelCatalogEntry.input = None,
       ModelCatalogEntry.cost = None, ModelCatalogEntry.capabilities = None \<rparr>"

definition noCollation :: "string \<Rightarrow> string \<Rightarrow> real" where
  "noCollation a b = 0"

section \<open>Properties of the classifier\<close>

text \<open>
  Claim C10.  When \<open>classifyTask\<close> is given hints with a task type and without
  \<open>requiresReasoning\<close>, the result requires reasoning exactly when the hinted type is
  \<open>reasoning\<close>, whatever the complexity, hinted or inferred, and whatever the prompt.
\<close>

theorem classifyTask_hinted_requiresReasoning:
  assumes "TaskClassificationHints.taskType h = Some tt"
    and "TaskClassificationHints.requiresReasoning h = None"
  shows "TaskClassification.requiresReasoning (classifyTask p imgs (Some h)) = (tt = Reasoning)"
  using assms by (simp add: classifyTask_def opt_field_def nullish_def)

text \<open>
  The example of the claim: the hinted type \<open>chat\<close> with the hinted complexity \<open>complex\<close>
  gives a complex task that does not require reasoning.
\<close>

theorem classifyTask_hinted_requiresReasoning_witness:
  "TaskClassification.requiresReasoning
     (classifyTask [] False
        (Some \<lparr> TaskClassificationHints.taskType = Some Chat,
                TaskClassificationHints.complexity = Some ComplexTask,
                TaskClassificationHints.requiresVision = None,
                TaskClassificationHints.requiresReasoning = None \<rparr>)) = False
   \<and> TaskClassification.complexity
     (classifyTask [] False
        (Some \<lparr> TaskClassificationHints.taskType = Some Chat,
                TaskClassificationHints.complexity = Some ComplexTask,
                TaskClassificationHints.requiresVision = None,
                TaskClassificationHints.requiresReasoning = None \<rparr>)) = ComplexTask"
proof -
  let ?h = "\<lparr> TaskClassificationHints.taskType = Some Chat,
                TaskClassificationHints.complexity = Some ComplexTask,
                TaskClassificationHints.requiresVision = None,
                TaskClassificationHints.requiresReasoning = None \<rparr>"
  have "TaskClassification.requiresReasoning (classifyTask [] False (Some ?h)) = (Chat = Reasoning)"
    by (rule classifyTask_hinted_requiresReasoning) simp_all
  moreover have "TaskClassification.complexity (classifyTask [] False (Some ?h)) = ComplexTask"
    by (simp add: classifyTask_def opt_field_def nullish_def)
  ultimately show ?thesis by simp
qed

text \<open>The rule without a hinted type, for contrast: a complex task requires reasoning.\<close>

lemma classifyTask_unhinted_complex_requiresReasoning:
  assumes "opt_field hs TaskClassificationHints.taskType = None"
    and "opt_field hs TaskClassificationHints.requiresReasoning = None"
    and "TaskClassification.complexity (classifyTask p imgs hs) = ComplexTask"
  shows "TaskClassification.requiresReasoning (classifyTask p imgs hs)"
  using assms by (simp add: classifyTask_def nullish_def Let_def split: prod.splits)

text \<open>On the empty prompt no pattern of the classifier matches: all of them start at a word boundary.\<close>

lemma rx_ends_Nil:
  "rx_ends r s [] = []" "rx_ends_alt rs s [] = []" "rx_ends_seq rs s [] = []"
  by (induction r s "[] :: nat list" and rs s "[] :: nat list" and rs s "[] :: nat list"
      rule: rx_ends_rx_ends_alt_rx_ends_seq.induct) simp_all

lemma wordBoundary_at_empty: "\<not> wordBoundary_at [] p"
  by (auto simp: wordBoundary_at_def)

lemma rx_test_words_empty: "\<not> rx_test (words alts) []"
  by (simp add: rx_test_def words_def wordBoundary_at_empty rx_ends_Nil)

lemma rx_test_WordB_Seq_empty: "\<not> rx_test (Seq (WordB # rs)) []"
  by (simp add: rx_test_def wordBoundary_at_empty rx_ends_Nil)

lemma patternScore_empty: "patternScore [] t = 0"
  by (cases t) (simp_all add: patternScore_def TASK_PATTERNS_def rx_test_words_empty)

lemma inferComplexity_empty: "inferComplexity [] = SimpleTask"
  by (simp add: inferComplexity_def COMPLEXITY_PATTERNS_complex_def COMPLEXITY_PATTERNS_simple_def
      rx_test_words_empty rx_test_WordB_Seq_empty)

lemma highestScoring_zero: "highestScoring (\<lambda>t. 0) ts best = best"
  by (induction ts arbitrary: best) (auto split: prod.splits)

text \<open>
  A prompt without a letter, a digit or an underscore has no word boundary, and no pattern
  of the classifier matches it.
\<close>

lemma wordBoundary_at_no_word:
  assumes "\<forall>c \<in> set s. \<not> isWordChar c"
  shows "\<not> wordBoundary_at s p"
proof -
  have "\<not> isWordChar (s ! k)" if "k < length s" for k
    using assms that by simp
  then show ?thesis
    by (cases p) (auto simp: wordBoundary_at_def)
qed

lemma rx_test_words_no_word:
  assumes "\<forall>c \<in> set s. \<not> isWordChar c"
  shows "\<not> rx_test (words alts) s"
  using wordBoundary_at_no_word [OF assms] by (simp add: rx_test_def words_def rx_ends_Nil)

lemma rx_test_WordB_Seq_no_word:
  assumes "\<forall>c \<in> set s. \<not> isWordChar c"
  shows "\<not> rx_test (Seq (WordB # rs)) s"
  using wordBoundary_at_no_word [OF assms] by (simp add: rx_test_def rx_ends_Nil)

lemma patternScore_no_word:
  assumes "\<forall>c \<in> set s. \<not> isWordChar c"
  shows "patternScore s t = 0"
  by (cases t) (simp_all add: patternScore_def TASK_PATTERNS_def rx_test_words_no_word [OF assms])

lemma complexity_patterns_no_word:
  assumes "\<forall>c \<in> set s. \<not> isWordChar c"
  shows "\<forall>r \<in> set COMPLEXITY_PATTERNS_complex. \<not> rx_test r s"
    and "\<forall>r \<in> set COMPLEXITY_PATTERNS_simple. \<not> rx_test r s"
  by (simp_all add: COMPLEXITY_PATTERNS_complex_def COMPLEXITY_PATTERNS_simple_def
      rx_test_words_no_word [OF assms] rx_test_WordB_Seq_no_word [OF assms])

lemma questionMarks_no_word: "\<forall>c \<in> set questionMarks. \<not> isWordChar c"
  by (simp add: questionMarks_def isWordChar_def)

text \<open>The prompt \<open>many\<close>: no task-type pattern matches it, and a pattern of complex tasks does.\<close>

lemmas rx_eval = rx_test_def words_def sep_def wordBoundary_at_def lit_at_def canon_def isWordChar_def
  isWhiteSpace_def char_of_def bit_Suc_0_iff upt_rec

lemma patternScore_manyPrompt: "patternScore manyPrompt t = 0"
  by (cases t) (simp_all add: manyPrompt_def patternScore_def TASK_PATTERNS_def rx_eval)

lemma complex_pattern_manyPrompt: "\<exists>r \<in> set COMPLEXITY_PATTERNS_complex. rx_test r manyPrompt"
  by (simp add: manyPrompt_def COMPLEXITY_PATTERNS_complex_def rx_eval)

text \<open>
  Claim C6, as amended.  \<open>classifyTask\<close> is a total function: no step of the source
  raises, so the model has no error value.  For a prompt that matches no task-type pattern
  (every pattern score is 0), with no images and no hints, the result has the type
  \<open>general\<close> and the confidence 0.5; its complexity is the one \<open>inferComplexity\<close> gives
  the prompt, and the task requires reasoning exactly when that is \<open>complex\<close>.  The
  complexity is
  \<^item> \<open>complex\<close> exactly when the prompt matches a pattern of complex tasks or, matching
    no pattern of simple tasks, has more than 500 characters;
  \<^item> \<open>simple\<close> exactly when the prompt matches no pattern of complex tasks and either
    matches a pattern of simple tasks or has fewer than 100 characters;
  \<^item> \<open>moderate\<close> exactly when the prompt matches no complexity pattern and has 100 to
    500 characters.
\<close>

theorem classifyTask_no_pattern:
  assumes "\<forall>t. patternScore p t = 0"
  shows "classifyTask p False None =
           \<lparr> type = General,
             TaskClassification.complexity = inferComplexity p,
             TaskClassification.requiresVision = False,
             estimatedContextTokens = None,
             TaskClassification.requiresReasoning = (inferComplexity p = ComplexTask),
             confidence = 0.5 \<rparr>
         \<and> (inferComplexity p = ComplexTask \<longleftrightarrow>
              (\<exists>r \<in> set COMPLEXITY_PATTERNS_complex. rx_test r p)
              \<or> ((\<forall>r \<in> set COMPLEXITY_PATTERNS_simple. \<not> rx_test r p) \<and> 500 < length p))
         \<and> (inferComplexity p = SimpleTask \<longleftrightarrow>
              (\<forall>r \<in> set COMPLEXITY_PATTERNS_complex. \<not> rx_test r p)
              \<and> ((\<exists>r \<in> set COMPLEXITY_PATTERNS_simple. rx_test r p) \<or> length p < 100))
         \<and> (inferComplexity p = ModerateTask \<longleftrightarrow>
              (\<forall>r \<in> set COMPLEXITY_PATTERNS_complex. \<not> rx_test r p)
              \<and> (\<forall>r \<in> set COMPLEXITY_PATTERNS_simple. \<not> rx_test r p)
              \<and> 100 \<le> length p \<and> length p \<le> 500)"
proof -
  have scores: "taskScores p False = (\<lambda>t. 0)"
    using assms by (simp add: taskScores_def fun_eq_iff)
  have r: "classifyTask p False None =
           \<lparr> type = General,
             TaskClassification.complexity = inferComplexity p,
             TaskClassification.requiresVision = False,
             estimatedContextTokens = None,
             TaskClassification.requiresReasoning = (inferComplexity p = ComplexTask),
             confidence = 0.5 \<rparr>"
    by (simp add: classifyTask_def opt_field_def nullish_def scores highestScoring_zero scoreOrder_def
        Let_def)
  have c: "inferComplexity p = ComplexTask \<longleftrightarrow>
              (\<exists>r \<in> set COMPLEXITY_PATTERNS_complex. rx_test r p)
              \<or> ((\<forall>r \<in> set COMPLEXITY_PATTERNS_simple. \<not> rx_test r p) \<and> 500 < length p)"
    by (auto simp: inferComplexity_def)
  have s: "inferComplexity p = SimpleTask \<longleftrightarrow>
              (\<forall>r \<in> set COMPLEXITY_PATTERNS_complex. \<not> rx_test r p)
              \<and> ((\<exists>r \<in> set COMPLEXITY_PATTERNS_simple. rx_test r p) \<or> length p < 100)"
    by (auto simp: inferComplexity_def)
  have m: "inferComplexity p = ModerateTask \<longleftrightarrow>
              (\<forall>r \<in> set COMPLEXITY_PATTERNS_complex. \<not> rx_test r p)
              \<and> (\<forall>r \<in> set COMPLEXITY_PATTERNS_simple. \<not> rx_test r p)
              \<and> 100 \<le> length p \<and> length p \<le> 500"
    by (auto simp: inferComplexity_def)
  from r c s m show ?thesis by blast
qed

text \<open>
  A prompt of 120 question marks matches no pattern at all: the result is the moderate
  general task of the claim.  The prompt \<open>many\<close> matches no task-type pattern, and has
  four characters, but it matches a pattern of complex tasks: the result is a complex
  general task that requires reasoning.
\<close>

theorem classifyTask_no_pattern_witness:
  "classifyTask questionMarks False None =
     \<lparr> type = General,
       TaskClassification.complexity = ModerateTask,
       TaskClassification.requiresVision = False,
       estimatedContextTokens = None,
       TaskClassification.requiresReasoning = False,
       confidence = 0.5 \<rparr>
   \<and> classifyTask manyPrompt False None =
     \<lparr> type = General,
       TaskClassification.complexity = ComplexTask,
       TaskClassification.requiresVision = False,
       estimatedContextTokens = None,
       TaskClassification.requiresReasoning = True,
       confidence = 0.5 \<rparr>"
proof -
  have q: "\<forall>t. patternScore questionMarks t = 0"
    by (simp add: patternScore_no_word [OF questionMarks_no_word])
  have l: "length questionMarks = 120"
    by (simp add: questionMarks_def)
  have m: "\<forall>t. patternScore manyPrompt t = 0"
    by (simp add: patternScore_manyPrompt)
  from classifyTask_no_pattern [OF q] complexity_patterns_no_word [OF questionMarks_no_word] l
  have 1: "classifyTask questionMarks False None =
     \<lparr> type = General,
       TaskClassification.complexity = ModerateTask,
       TaskClassification.requiresVision = False,
       estimatedContextTokens = None,
       TaskClassification.requiresReasoning = False,
       confidence = 0.5 \<rparr>"
    by simp
  from classifyTask_no_pattern [OF m] complex_pattern_manyPrompt
  have 2: "classifyTask manyPrompt False None =
     \<lparr> type = General,
       TaskClassification.complexity = ComplexTask,
       TaskClassification.requiresVision = False,
       estimatedContextTokens = None,
       TaskClassification.requiresReasoning = True,
       confidence = 0.5 \<rparr>"
    by simp
  from 1 2 show ?thesis by simp
qed

text \<open>
  The claim as stated fails on the empty prompt: no task-type pattern matches it, and the
  complexity of the result is \<open>simple\<close>, not \<open>moderate\<close>.
\<close>

theorem classifyTask_worst_case_counterexample:
  "(\<forall>t. patternScore [] t = 0)
   \<and> TaskClassification.complexity (classifyTask [] False None) \<noteq> ModerateTask"
proof -
  have "\<forall>t. patternScore [] t = 0" by (simp add: patternScore_empty)
  moreover have "classifyTask [] False None =
           \<lparr> type = General,
             TaskClassification.complexity = inferComplexity [],
             TaskClassification.requiresVision = False,
             estimatedContextTokens = None,
             TaskClassification.requiresReasoning = (inferComplexity [] = ComplexTask),
             confidence = 0.5 \<rparr>"
    by (simp add: classifyTask_def opt_field_def nullish_def taskScores_def patternScore_empty
        highestScoring_zero scoreOrder_def Let_def)
  ultimately show ?thesis by (simp add: inferComplexity_empty)
qed

section \<open>Properties of the router: the manual override\<close>

lemma trim_openai: "trim ''openai/gpt-4o'' = ''openai/gpt-4o''"
  by (simp add: trim_def isWhiteSpace_def)

lemma trim_blank: "trim '' '' = []"
  by (simp add: trim_def isWhiteSpace_def)

lemma parseOverrideModelRef_openai:
  "trim ov = ''openai/gpt-4o'' \<Longrightarrow>
   parseOverrideModelRef ov = \<lparr> ModelRef.provider = ''openai'', ModelRef.model = ''gpt-4o'' \<rparr>"
  by (simp add: parseOverrideModelRef_def Let_def trim_def isWhiteSpace_def)

text \<open>\<open>indexOf_slash\<close> finds the first slash.\<close>

lemma indexOf_slash_Some_iff:
  "indexOf_slash s = Some i \<longleftrightarrow> i < length s \<and> s ! i = CHR ''/'' \<and> (\<forall>j<i. s ! j \<noteq> CHR ''/'')"
proof (induction s arbitrary: i)
  case Nil
  then show ?case by simp
next
  case (Cons c cs)
  show ?case
  proof (cases "c = CHR ''/''")
    case True
    then show ?thesis by (cases i) auto
  next
    case False
    show ?thesis
    proof (cases i)
      case 0
      with False show ?thesis by auto
    next
      case (Suc k)
      have "(\<forall>j<Suc k. (c # cs) ! j \<noteq> CHR ''/'') \<longleftrightarrow> (\<forall>j<k. cs ! j \<noteq> CHR ''/'')"
        using False by (auto simp: less_Suc_eq_0_disj)
      with False Suc Cons.IH [of k] show ?thesis by auto
    qed
  qed
qed

lemma indexOf_slash_None_iff: "indexOf_slash s = None \<longleftrightarrow> CHR ''/'' \<notin> set s"
  by (induction s) auto

text \<open>
  Claim C1, as amended.  For every override string that is not blank (not empty once
  trimmed), whatever the router's configuration and catalog and whatever the other
  options, \<open>selectModelForTask\<close> returns at once the override as the primary selection:
  the string is trimmed and split at its first slash into provider and model, each trimmed,
  with the provider \<open>anthropic\<close> when there is no slash; the selected score is the synthetic
  one, total 1 and the four sub-scores 1; no fallbacks and no ranked scores are given.  In
  particular the override \<open>openai/gpt-4o\<close> gives the provider \<open>openai\<close> and the model
  \<open>gpt-4o\<close>.
\<close>

theorem selectModelForTask_override:
  assumes "overrideModel options = Some ov" and "trim ov \<noteq> []"
  shows "selectModelForTask router options =
           Some \<lparr> primary = parseOverrideModelRef ov,
                  fallbacks = None,
                  decision =
                    \<lparr> selectedScore =
                        \<lparr> ModelScore.provider = ModelRef.provider (parseOverrideModelRef ov),
                          ModelScore.model = ModelRef.model (parseOverrideModelRef ov),
                          totalScore = 1,
                          breakdown = \<lparr> capability = 1, ModelScoreBreakdown.cost = 1,
                                        ModelScoreBreakdown.performance = 1,
                                        ModelScoreBreakdown.availability = 1 \<rparr>,
                          ModelScore.reasoning =
                            ''Manual override: '' @ ModelRef.provider (parseOverrideModelRef ov)
                            @ ''/'' @ ModelRef.model (parseOverrideModelRef ov) \<rparr>,
                      taskClassification = classifyTask (prompt options) (hasImages options) (hints options),
                      allRankedScores = [],
                      RoutingDecision.reasoning =
                        ''Manual model override: '' @ ModelRef.provider (parseOverrideModelRef ov)
                        @ ''/'' @ ModelRef.model (parseOverrideModelRef ov) \<rparr> \<rparr>
         \<and> (CHR ''/'' \<notin> set (trim ov) \<longrightarrow>
              parseOverrideModelRef ov = \<lparr> ModelRef.provider = ''anthropic'', ModelRef.model = trim ov \<rparr>)
         \<and> (\<forall>i. i < length (trim ov) \<and> trim ov ! i = CHR ''/'' \<and> (\<forall>j<i. trim ov ! j \<noteq> CHR ''/'') \<longrightarrow>
              parseOverrideModelRef ov =
                \<lparr> ModelRef.provider = trim (take i (trim ov)),
                  ModelRef.model = trim (drop (i + 1) (trim ov)) \<rparr>)
         \<and> (trim ov = ''openai/gpt-4o'' \<longrightarrow>
              parseOverrideModelRef ov = \<lparr> ModelRef.provider = ''openai'', ModelRef.model = ''gpt-4o'' \<rparr>)"
proof -
  have a: "selectModelForTask router options =
      Some (buildManualOverrideRoutingResult ov (prompt options) (hasImages options) (hints options))"
    using assms by (simp add: selectModelForTask_def handleModelOverride_def)
  have b: "CHR ''/'' \<notin> set (trim ov) \<longrightarrow>
      parseOverrideModelRef ov = \<lparr> ModelRef.provider = ''anthropic'', ModelRef.model = trim ov \<rparr>"
    by (simp add: parseOverrideModelRef_def Let_def indexOf_slash_None_iff [symmetric])
  have c: "\<forall>i. i < length (trim ov) \<and> trim ov ! i = CHR ''/'' \<and> (\<forall>j<i. trim ov ! j \<noteq> CHR ''/'') \<longrightarrow>
      parseOverrideModelRef ov =
        \<lparr> ModelRef.provider = trim (take i (trim ov)), ModelRef.model = trim (drop (i + 1) (trim ov)) \<rparr>"
  proof (intro allI impI)
    fix i
    assume "i < length (trim ov) \<and> trim ov ! i = CHR ''/'' \<and> (\<forall>j<i. trim ov ! j \<noteq> CHR ''/'')"
    then have "indexOf_slash (trim ov) = Some i"
      by (simp add: indexOf_slash_Some_iff)
    then show "parseOverrideModelRef ov =
        \<lparr> ModelRef.provider = trim (take i (trim ov)), ModelRef.model = trim (drop (i + 1) (trim ov)) \<rparr>"
      by (simp add: parseOverrideModelRef_def Let_def)
  qed
  from a b c parseOverrideModelRef_openai show ?thesis
    by (simp add: buildManualOverrideRoutingResult_def Let_def)
qed

text \<open>
  The override \<open>openai/gpt-4o\<close> on a router whose routing is disabled and whose catalog is
  empty.
\<close>

theorem selectModelForTask_override_witness:
  "map_option primary
     (selectModelForTask \<lparr> config = DEFAULT_ROUTING_CONFIG, catalog = [] \<rparr>
        (overrideOptions ''openai/gpt-4o''))
     = Some \<lparr> ModelRef.provider = ''openai'', ModelRef.model = ''gpt-4o'' \<rparr>
   \<and> map_option (\<lambda>r. breakdown (selectedScore (decision r)))
     (selectModelForTask \<lparr> config = DEFAULT_ROUTING_CONFIG, catalog = [] \<rparr>
        (overrideOptions ''openai/gpt-4o''))
     = Some \<lparr> capability = 1, ModelScoreBreakdown.cost = 1,
              ModelScoreBreakdown.performance = 1, ModelScoreBreakdown.availability = 1 \<rparr>"
  using selectModelForTask_override
    [of "overrideOptions ''openai/gpt-4o''" "''openai/gpt-4o''"
        "\<lparr> config = DEFAULT_ROUTING_CONFIG, catalog = [] \<rparr>"]
  by (simp add: overrideOptions_def trim_openai)

text \<open>
  The claim as stated fails for a non-empty override that is blank: the override of one
  space is not taken, and with routing disabled no selection is returned.
\<close>

theorem selectModelForTask_override_counterexample:
  "'' '' \<noteq> []
   \<and> selectModelForTask \<lparr> config = DEFAULT_ROUTING_CONFIG, catalog = [] \<rparr> (overrideOptions '' '') = None"
  by (simp add: selectModelForTask_def overrideOptions_def trim_blank DEFAULT_ROUTING_CONFIG_def)

section \<open>Properties of the router: the fallback list\<close>

lemma toLowerCase_append: "toLowerCase (a @ b) = toLowerCase a @ toLowerCase b"
  by (simp add: toLowerCase_def)

lemma toLowerCase_Cons: "toLowerCase (c # s) = toLowerCase_char c # toLowerCase s"
  by (simp add: toLowerCase_def)

text \<open>The loop takes, in rank order, the first scores whose key is not the primary's.\<close>

lemma fallbackLoop_eq:
  "fallbackLoop pk m item acc rs =
     acc @ take (m - length acc) (map item (filter (\<lambda>s. scoreKey s \<noteq> pk) rs))"
proof (induction rs arbitrary: acc)
  case Nil
  then show ?case by simp
next
  case (Cons sc rest)
  show ?case
  proof (cases "length acc \<ge> m")
    case True
    then show ?thesis by simp
  next
    case False
    then have "m - length acc = Suc (m - Suc (length acc))" by simp
    with False Cons.IH [of acc] Cons.IH [of "acc @ [item sc]"] show ?thesis
      by (simp del: append_assoc)
  qed
qed

lemma same_identity_same_key:
  assumes "toLowerCase (ModelScore.provider sc) = toLowerCase (ModelRef.provider prim)"
    and "toLowerCase (ModelScore.model sc) = toLowerCase (ModelRef.model prim)"
  shows "scoreKey sc = toLowerCase (ModelRef.provider prim @ ''/'' @ ModelRef.model prim)"
  using assms by (simp add: scoreKey_def toLowerCase_append toLowerCase_Cons)

text \<open>
  Claim C5.  Let \<open>others\<close> be the ranked scores whose key differs from the primary's, in
  rank order.  The router's method returns the first \<open>m\<close> of them as model references
  (\<open>undefined\<close> when there is none), and the exported function returns the same as
  \<open>provider/model\<close> strings.  Neither list is longer than the maximum \<open>m\<close>, and no fallback
  has the provider and the model of the primary, compared without regard to case.
\<close>

theorem generateFallbackList_spec:
  fixes rs :: "ModelScore list" and prim :: ModelRef and m :: nat
  defines "pk \<equiv> toLowerCase (ModelRef.provider prim @ ''/'' @ ModelRef.model prim)"
  defines "others \<equiv> filter (\<lambda>sc. scoreKey sc \<noteq> pk) rs"
  shows "(case router_generateFallbackList rs prim m of
            None \<Rightarrow> take m others = []
          | Some fbs \<Rightarrow>
              fbs \<noteq> [] \<and> fbs = map refOfScore (take m others) \<and> length fbs \<le> m
              \<and> (\<forall>f \<in> set fbs.
                    \<not> (toLowerCase (ModelRef.provider f) = toLowerCase (ModelRef.provider prim)
                       \<and> toLowerCase (ModelRef.model f) = toLowerCase (ModelRef.model prim))))
         \<and> generateFallbackList rs prim m
           = map (\<lambda>sc. ModelScore.provider sc @ ''/'' @ ModelScore.model sc) (take m others)
         \<and> length (generateFallbackList rs prim m) \<le> m
         \<and> (\<forall>x \<in> set (generateFallbackList rs prim m). toLowerCase x \<noteq> pk)"
proof -
  have key: "scoreKey sc \<noteq> pk" if "sc \<in> set (take m others)" for sc
  proof -
    from that have "sc \<in> set others" by (rule in_set_takeD)
    then show ?thesis by (simp add: others_def)
  qed
  have ident: "\<not> (toLowerCase (ModelRef.provider f) = toLowerCase (ModelRef.provider prim)
                 \<and> toLowerCase (ModelRef.model f) = toLowerCase (ModelRef.model prim))"
    if "f \<in> set (map refOfScore (take m others))" for f
  proof -
    from that obtain sc where sc: "sc \<in> set (take m others)" and f: "f = refOfScore sc" by auto
    from key [OF sc] same_identity_same_key [of sc prim] show ?thesis
      by (auto simp: f refOfScore_def pk_def)
  qed
  have strs: "toLowerCase x \<noteq> pk"
    if "x \<in> set (map (\<lambda>sc. ModelScore.provider sc @ ''/'' @ ModelScore.model sc) (take m others))" for x
  proof -
    from that obtain sc where sc: "sc \<in> set (take m others)"
      and x: "x = ModelScore.provider sc @ ''/'' @ ModelScore.model sc" by auto
    from key [OF sc] show ?thesis by (simp add: x scoreKey_def)
  qed
  have r: "router_generateFallbackList rs prim m
           = (if take m others = [] then None else Some (map refOfScore (take m others)))"
    by (simp add: router_generateFallbackList_def fallbackLoop_eq pk_def others_def take_map Let_def)
  have g: "generateFallbackList rs prim m
           = map (\<lambda>sc. ModelScore.provider sc @ ''/'' @ ModelScore.model sc) (take m others)"
    by (simp add: generateFallbackList_def fallbackLoop_eq pk_def others_def take_map Let_def)
  show ?thesis
    unfolding r g using ident strs by simp
qed

text \<open>
  A ranking of four, a primary written with another case, the maximum 2: the primary is
  left out and the next two follow in rank order.
\<close>

theorem generateFallbackList_spec_witness:
  "router_generateFallbackList exampleRanking
     \<lparr> ModelRef.provider = ''Anthropic'', ModelRef.model = ''claude-sonnet-4-20250514'' \<rparr> 2
     = Some [\<lparr> ModelRef.provider = ''openai'', ModelRef.model = ''gpt-4o'' \<rparr>,
             \<lparr> ModelRef.provider = ''openai'', ModelRef.model = ''o1'' \<rparr>]
   \<and> generateFallbackList exampleRanking
     \<lparr> ModelRef.provider = ''Anthropic'', ModelRef.model = ''claude-sonnet-4-20250514'' \<rparr> 2
     = [''openai/gpt-4o'', ''openai/o1'']"
  using generateFallbackList_spec
    [where rs = exampleRanking and m = 2
       and prim = "\<lparr> ModelRef.provider = ''Anthropic'', ModelRef.model = ''claude-sonnet-4-20250514'' \<rparr>"]
  by (simp add: exampleRanking_def exampleScore_def scoreKey_def toLowerCase_def toLowerCase_char_def
      char_of_def bit_Suc_0_iff refOfScore_def split: option.splits)

text \<open>
  In \<open>selectModelForTask\<close> the method is called with its default maximum: a selection
  has at most 3 fallbacks, none of which is the primary.
\<close>

lemma router_generateFallbackList_Some:
  assumes "router_generateFallbackList rs prim m = Some fbs"
  shows "length fbs \<le> m
         \<and> (\<forall>f \<in> set fbs.
               \<not> (toLowerCase (ModelRef.provider f) = toLowerCase (ModelRef.provider prim)
                  \<and> toLowerCase (ModelRef.model f) = toLowerCase (ModelRef.model prim)))"
proof -
  define pk where "pk = toLowerCase (ModelRef.provider prim @ ''/'' @ ModelRef.model prim)"
  from assms have fbs: "fbs = take m (map refOfScore (filter (\<lambda>s. scoreKey s \<noteq> pk) rs))"
    by (simp add: router_generateFallbackList_def fallbackLoop_eq pk_def Let_def split: if_splits)
  have "\<not> (toLowerCase (ModelRef.provider f) = toLowerCase (ModelRef.provider prim)
                  \<and> toLowerCase (ModelRef.model f) = toLowerCase (ModelRef.model prim))"
    if "f \<in> set fbs" for f
  proof -
    from that have "f \<in> set (map refOfScore (filter (\<lambda>s. scoreKey s \<noteq> pk) rs))"
      unfolding fbs by (rule in_set_takeD)
    then obtain sc where sc: "scoreKey sc \<noteq> pk" and f: "f = refOfScore sc" by auto
    from sc same_identity_same_key [of sc prim] show ?thesis
      by (auto simp: f refOfScore_def pk_def)
  qed
  then show ?thesis by (simp add: fbs)
qed

lemma selectModelForTask_fallbacks:
  assumes "selectModelForTask router options = Some r" and "fallbacks r = Some fbs"
  shows "length fbs \<le> 3
         \<and> (\<forall>f \<in> set fbs.
               \<not> (toLowerCase (ModelRef.provider f) = toLowerCase (ModelRef.provider (primary r))
                  \<and> toLowerCase (ModelRef.model f) = toLowerCase (ModelRef.model (primary r))))"
proof -
  from assms obtain rs where
    "router_generateFallbackList rs (primary r) defaultMaxFallbacks = Some fbs"
    by (auto simp: selectModelForTask_def handleModelOverride_def buildManualOverrideRoutingResult_def
        Let_def split: option.splits if_splits prod.splits list.splits)
  from router_generateFallbackList_Some [OF this] show ?thesis
    by (simp add: defaultMaxFallbacks_def)
qed

section \<open>Properties of the scorer: weights\<close>

text \<open>The sum of the normalised weights, in each of the three branches of \<open>normalizeWeights\<close>.\<close>

lemma weightSum_normalizeWeights:
  "weightSum (normalizeWeights w) =
     (if weightSum w = 0 then 1 else if \<bar>weightSum w - 1\<bar> < 0.001 then weightSum w else 1)"
proof -
  have d: "weightSum DEFAULT_SCORING_WEIGHTS = 1"
    by (simp add: weightSum_def DEFAULT_SCORING_WEIGHTS_def)
  have r: "a / s + b / s + c / s + e / s = 1" if "s = a + b + c + e" "s \<noteq> 0" for a b c e s :: real
    using that by (simp add: add_divide_distrib [symmetric])
  show ?thesis
    using d r [of "weightSum w" "capabilityMatch w" "costEfficiency w"
                 "ModelScoringWeights.performance w" "ModelScoringWeights.availability w"]
    by (auto simp: normalizeWeights_def Let_def weightSum_def)
qed

text \<open>
  Claim C3, as amended.  For every weight set whose components have a strictly positive
  sum, the components of the output of \<open>normalizeWeights\<close> sum to 1 within 0.001: a sum
  within 0.001 of 1 is passed through unchanged, every other sum is rescaled to 1 exactly
  (in the exact arithmetic of the model).
\<close>

theorem normalizeWeights_sum:
  assumes "weightSum w > 0"
  shows "\<bar>weightSum (normalizeWeights w) - 1\<bar> < 0.001
         \<and> (\<bar>weightSum w - 1\<bar> \<ge> 0.001 \<longrightarrow> weightSum (normalizeWeights w) = 1)
         \<and> (\<bar>weightSum w - 1\<bar> < 0.001 \<longrightarrow> normalizeWeights w = w)"
proof -
  have "\<bar>weightSum w - 1\<bar> < 0.001 \<longrightarrow> normalizeWeights w = w"
    using assms by (simp add: normalizeWeights_def Let_def weightSum_def)
  then show ?thesis
    using assms by (simp add: weightSum_normalizeWeights)
qed

text \<open>The weights 2, 1, 0.5, 0.5 of the source's test are rescaled to 0.5, 0.25, 0.125, 0.125.\<close>

theorem normalizeWeights_sum_witness:
  "weightSum (mkWeights 2 1 0.5 0.5) > 0
   \<and> weightSum (normalizeWeights (mkWeights 2 1 0.5 0.5)) = 1
   \<and> normalizeWeights (mkWeights 2 1 0.5 0.5) = mkWeights 0.5 0.25 0.125 0.125"
proof -
  have pos: "weightSum (mkWeights 2 1 0.5 0.5) > 0"
    by (simp add: weightSum_def mkWeights_def)
  have "normalizeWeights (mkWeights 2 1 0.5 0.5) = mkWeights 0.5 0.25 0.125 0.125"
    by (simp add: normalizeWeights_def mkWeights_def Let_def)
  with pos normalizeWeights_sum [OF pos] show ?thesis
    by (simp add: weightSum_def mkWeights_def)
qed

text \<open>
  The claim as stated fails for the weights 0.4005, 0.3, 0.2, 0.1: their sum 1.0005 is
  within 0.001 of 1, the weights are returned unchanged, and the sum is not within
  \<open>1e-9\<close> of 1.
\<close>

theorem normalizeWeights_sum_counterexample:
  "weightSum (mkWeights 0.4005 0.3 0.2 0.1) > 0
   \<and> \<not> \<bar>weightSum (normalizeWeights (mkWeights 0.4005 0.3 0.2 0.1)) - 1\<bar> \<le> 1 / 10 ^ 9"
  by (simp add: weightSum_def mkWeights_def normalizeWeights_def Let_def)

section \<open>Properties of the scorer: the range of the scores\<close>

lemma getModelCapabilities_mkEntry [simp]: "getModelCapabilities (mkEntry i n p caps) = caps"
  by (simp add: getModelCapabilities_def mkEntry_def)

lemma nameSignal_contextWindow_pos:
  "NameSignals.contextWindow (detectModelNameCapabilities nm) = Some w \<Longrightarrow> 0 < w"
  by (auto simp: detectModelNameCapabilities_def Let_def split: option.splits if_splits)

lemma inferred_contextWindow_pos:
  assumes "ModelCatalogEntry.capabilities m = None"
  shows "0 < ModelCapabilities.contextWindow (getModelCapabilities m)"
  using assms
  by (auto simp: getModelCapabilities_def modelCatalogEntryToCapabilities_def
      inferModelCapabilities_def Let_def nullish_def opt_field_def DEFAULT_CONTEXT_WINDOW_def
      split: option.splits dest: nameSignal_contextWindow_pos)

lemma complexity_term_bounds:
  "0 \<le> (if COMPLEXITY_LEVELS a \<ge> COMPLEXITY_LEVELS b then 0.25
         else 0.25 * (COMPLEXITY_LEVELS a / COMPLEXITY_LEVELS b))
   \<and> (if COMPLEXITY_LEVELS a \<ge> COMPLEXITY_LEVELS b then 0.25
         else 0.25 * (COMPLEXITY_LEVELS a / COMPLEXITY_LEVELS b)) \<le> 0.25"
  by (cases a; cases b) (simp_all add: COMPLEXITY_LEVELS_def)

lemma context_term_bounds:
  assumes "0 \<le> cw"
  shows "0 \<le> (case est0 of None \<Rightarrow> 0.1
              | Some est \<Rightarrow> (if est > 0 then (let contextRatio = cw / est
                                               in if contextRatio \<ge> 1 then 0.1 else 0.1 * contextRatio)
                            else 0.1 :: real))
       \<and> (case est0 of None \<Rightarrow> 0.1
              | Some est \<Rightarrow> (if est > 0 then (let contextRatio = cw / est
                                               in if contextRatio \<ge> 1 then 0.1 else 0.1 * contextRatio)
                            else 0.1 :: real)) \<le> 0.1"
  using assms by (auto simp: Let_def split: option.splits)

lemma scoreCapabilityMatch_bounds:
  assumes "0 \<le> ModelCapabilities.contextWindow (getModelCapabilities m)"
  shows "0 \<le> scoreCapabilityMatch m task \<and> scoreCapabilityMatch m task \<le> 1"
proof -
  define A :: real where
    "A = (if TaskClassification.type task \<in> set (taskTypes (getModelCapabilities m)) then 0.3 else 0)"
  define B :: real where
    "B = (if COMPLEXITY_LEVELS (maxComplexity (getModelCapabilities m))
               \<ge> COMPLEXITY_LEVELS (TaskClassification.complexity task) then 0.25
          else 0.25 * (COMPLEXITY_LEVELS (maxComplexity (getModelCapabilities m))
                       / COMPLEXITY_LEVELS (TaskClassification.complexity task)))"
  define C :: real where
    "C = (if TaskClassification.requiresVision task
          then (if ModelCapabilities.supportsVision (getModelCapabilities m) then 0.2 else 0)
          else 0.2)"
  define D :: real where
    "D = (if TaskClassification.requiresReasoning task
          then (if ModelCapabilities.supportsReasoning (getModelCapabilities m) then 0.15 else 0.05)
          else 0.15)"
  define E :: real where
    "E = (case estimatedContextTokens task of
            None \<Rightarrow> 0.1
          | Some est \<Rightarrow>
              (if est > 0
               then (let contextRatio = ModelCapabilities.contextWindow (getModelCapabilities m) / est
                     in if contextRatio \<ge> 1 then 0.1 else 0.1 * contextRatio)
               else 0.1))"
  have eq: "scoreCapabilityMatch m task = A + B + C + D + E"
    unfolding scoreCapabilityMatch_def A_def B_def C_def D_def E_def by (simp add: Let_def)
  have a: "0 \<le> A \<and> A \<le> 0.3" by (simp add: A_def)
  have b: "0 \<le> B \<and> B \<le> 0.25" unfolding B_def by (rule complexity_term_bounds)
  have c: "0 \<le> C \<and> C \<le> 0.2" by (simp add: C_def)
  have d: "0 \<le> D \<and> D \<le> 0.15" by (simp add: D_def)
  have e: "0 \<le> E \<and> E \<le> 0.1" unfolding E_def
    using assms by (rule context_term_bounds)
  from a b c d e show ?thesis unfolding eq by (simp add: power2_eq_square)
qed

lemma scoreCostEfficiency_bounds: "0 \<le> scoreCostEfficiency m \<and> scoreCostEfficiency m \<le> 1"
  by (cases "costTier (getModelCapabilities m)") (simp_all add: scoreCostEfficiency_def COST_TIER_SCORES_def)

lemma scorePerformance_bounds: "0 \<le> scorePerformance m task \<and> scorePerformance m task \<le> 1"
  by (simp add: scorePerformance_def Let_def min_def)

lemma scoreAvailability_bounds: "0 \<le> scoreAvailability m h \<and> scoreAvailability m h \<le> 1"
  by (cases h) (simp_all add: scoreAvailability_def)

lemma nonNegativeWeights_normalizeWeights:
  assumes "nonNegativeWeights w"
  shows "nonNegativeWeights (normalizeWeights w)"
proof -
  have "0 \<le> weightSum w" using assms by (simp add: nonNegativeWeights_def weightSum_def)
  then show ?thesis
    using assms
    by (auto simp: normalizeWeights_def Let_def nonNegativeWeights_def weightSum_def
        DEFAULT_SCORING_WEIGHTS_def)
qed

lemma weighted_sum_bounds:
  fixes a b c d :: real
  assumes "0 \<le> a \<and> a \<le> 1" "0 \<le> b \<and> b \<le> 1" "0 \<le> c \<and> c \<le> 1" "0 \<le> d \<and> d \<le> 1"
    and "0 \<le> wa" "0 \<le> wb" "0 \<le> wc" "0 \<le> wd"
  shows "0 \<le> a * wa + b * wb + c * wc + d * wd \<and> a * wa + b * wb + c * wc + d * wd \<le> wa + wb + wc + wd"
proof -
  have "0 \<le> a * wa" "0 \<le> b * wb" "0 \<le> c * wc" "0 \<le> d * wd" using assms by simp_all
  moreover have "a * wa \<le> wa" "b * wb \<le> wb" "c * wc \<le> wc" "d * wd \<le> wd"
    using assms by (simp_all add: mult_left_le_one_le)
  ultimately show ?thesis by linarith
qed

lemma totalScore_scoreModel_bounds:
  assumes "0 \<le> ModelCapabilities.contextWindow (getModelCapabilities m)"
    and "nonNegativeWeights w"
  shows "0 \<le> totalScore (scoreModel m task (Some w) h)
       \<and> totalScore (scoreModel m task (Some w) h) \<le> weightSum (normalizeWeights w)"
proof -
  have n: "nonNegativeWeights (normalizeWeights w)"
    using assms(2) by (rule nonNegativeWeights_normalizeWeights)
  show ?thesis
    using weighted_sum_bounds [OF scoreCapabilityMatch_bounds [OF assms(1), of task]
        scoreCostEfficiency_bounds [of m] scorePerformance_bounds [of m task]
        scoreAvailability_bounds [of m h],
        of "capabilityMatch (normalizeWeights w)" "costEfficiency (normalizeWeights w)"
           "ModelScoringWeights.performance (normalizeWeights w)"
           "ModelScoringWeights.availability (normalizeWeights w)"] n
    by (simp add: scoreModel_def Let_def nullish_def nonNegativeWeights_def weightSum_def)
qed


text \<open>
  What holds of the range of the scores.  For every catalog entry whose explicit
  capability profile, if it has one, has a context window that is not negative (an
  inferred profile always has a positive one), every task classification and every
  provider health, each of the four sub-scores of \<open>scoreModel\<close> lies in [0,1].  For
  weights none of which is negative (or the default weights), the total score is at least
  0 and below 1.001; it is at most 1 unless the weights sum to more than 1 and less than
  1.001, the sums that \<open>normalizeWeights\<close> passes through unchanged.
\<close>

lemma scoreModel_range:
  assumes "\<forall>caps. ModelCatalogEntry.capabilities m = Some caps \<longrightarrow> 0 \<le> ModelCapabilities.contextWindow caps"
    and "\<forall>w. wopt = Some w \<longrightarrow> nonNegativeWeights w"
  shows "0 \<le> capability (breakdown (scoreModel m task wopt h))
         \<and> capability (breakdown (scoreModel m task wopt h)) \<le> 1
         \<and> 0 \<le> ModelScoreBreakdown.cost (breakdown (scoreModel m task wopt h))
         \<and> ModelScoreBreakdown.cost (breakdown (scoreModel m task wopt h)) \<le> 1
         \<and> 0 \<le> ModelScoreBreakdown.performance (breakdown (scoreModel m task wopt h))
         \<and> ModelScoreBreakdown.performance (breakdown (scoreModel m task wopt h)) \<le> 1
         \<and> 0 \<le> ModelScoreBreakdown.availability (breakdown (scoreModel m task wopt h))
         \<and> ModelScoreBreakdown.availability (breakdown (scoreModel m task wopt h)) \<le> 1
         \<and> 0 \<le> totalScore (scoreModel m task wopt h)
         \<and> totalScore (scoreModel m task wopt h) < 1.001
         \<and> ((\<forall>w. wopt = Some w \<longrightarrow> \<not> (1 < weightSum w \<and> weightSum w < 1.001))
              \<longrightarrow> totalScore (scoreModel m task wopt h) \<le> 1)"
proof -
  have cw: "0 \<le> ModelCapabilities.contextWindow (getModelCapabilities m)"
  proof (cases "ModelCatalogEntry.capabilities m")
    case None
    then show ?thesis using inferred_contextWindow_pos [of m] by simp
  next
    case (Some caps)
    with assms(1) show ?thesis by (simp add: getModelCapabilities_def)
  qed
  define w where "w = nullish wopt DEFAULT_SCORING_WEIGHTS"
  have nn: "nonNegativeWeights w"
    using assms(2)
    by (cases wopt) (simp_all add: w_def nullish_def nonNegativeWeights_def DEFAULT_SCORING_WEIGHTS_def)
  have same: "scoreModel m task wopt h = scoreModel m task (Some w) h"
    by (simp add: scoreModel_def w_def nullish_def)
  have subs: "breakdown (scoreModel m task wopt h) =
      \<lparr> capability = scoreCapabilityMatch m task,
        ModelScoreBreakdown.cost = scoreCostEfficiency m,
        ModelScoreBreakdown.performance = scorePerformance m task,
        ModelScoreBreakdown.availability = scoreAvailability m h \<rparr>"
    by (simp add: scoreModel_def Let_def)
  have tot: "0 \<le> totalScore (scoreModel m task wopt h)
       \<and> totalScore (scoreModel m task wopt h) \<le> weightSum (normalizeWeights w)"
    unfolding same using cw nn by (rule totalScore_scoreModel_bounds)
  have ws0: "0 \<le> weightSum w"
    using nn by (simp add: nonNegativeWeights_def weightSum_def)
  have lt: "weightSum (normalizeWeights w) < 1.001"
  proof (cases "weightSum w \<noteq> 0 \<and> \<bar>weightSum w - 1\<bar> < 0.001")
    case True
    have "weightSum w - 1 \<le> \<bar>weightSum w - 1\<bar>" by (rule abs_ge_self)
    also have "\<dots> < 1 / 1000" using True by simp
    finally have "weightSum w < 1.001" by simp
    with True show ?thesis by (simp add: weightSum_normalizeWeights)
  next
    case False
    then show ?thesis by (auto simp: weightSum_normalizeWeights)
  qed
  have le: "weightSum (normalizeWeights w) \<le> 1"
    if "\<forall>v. wopt = Some v \<longrightarrow> \<not> (1 < weightSum v \<and> weightSum v < 1.001)"
  proof (cases wopt)
    case None
    then have "w = DEFAULT_SCORING_WEIGHTS" by (simp add: w_def nullish_def)
    then show ?thesis
      by (simp add: weightSum_normalizeWeights) (simp add: weightSum_def DEFAULT_SCORING_WEIGHTS_def)
  next
    case (Some v)
    then have "w = v" by (simp add: w_def nullish_def)
    with that Some have "\<not> (1 < weightSum w \<and> weightSum w < 1.001)" by simp
    then show ?thesis by (auto simp: weightSum_normalizeWeights)
  qed
  from tot lt le scoreCapabilityMatch_bounds [OF cw, of task] scoreCostEfficiency_bounds [of m]
    scorePerformance_bounds [of m task] scoreAvailability_bounds [of m h]
  show ?thesis unfolding subs by auto
qed

text \<open>
  The free coding model and the simple coding task of the source's tests, with the default
  weights: the sub-scores are 1, 1, 0.8 and 1, the total is 0.96.
\<close>

lemma scoreModel_coding_example:
  "totalScore (scoreModel ollamaCodingModel simpleCodingTask None None) = 0.96
   \<and> breakdown (scoreModel ollamaCodingModel simpleCodingTask None None)
       = \<lparr> capability = 1, ModelScoreBreakdown.cost = 1,
           ModelScoreBreakdown.performance = 0.8, ModelScoreBreakdown.availability = 1 \<rparr>"
proof -
  have c: "scoreCapabilityMatch ollamaCodingModel simpleCodingTask = 1"
    by (simp add: scoreCapabilityMatch_def ollamaCodingModel_def simpleCodingTask_def mkTask_def
        mkCapabilities_def COMPLEXITY_LEVELS_def Let_def)
  have k: "scoreCostEfficiency ollamaCodingModel = 1"
    by (simp add: scoreCostEfficiency_def ollamaCodingModel_def mkCapabilities_def COST_TIER_SCORES_def)
  have p: "scorePerformance ollamaCodingModel simpleCodingTask = 0.8"
    by (simp add: scorePerformance_def ollamaCodingModel_def simpleCodingTask_def mkTask_def
        mkCapabilities_def Let_def)
  have a: "scoreAvailability ollamaCodingModel None = 1"
    by (simp add: scoreAvailability_def)
  have n: "normalizeWeights DEFAULT_SCORING_WEIGHTS = DEFAULT_SCORING_WEIGHTS"
    by (simp add: normalizeWeights_def DEFAULT_SCORING_WEIGHTS_def Let_def)
  have t: "totalScore (scoreModel ollamaCodingModel simpleCodingTask None None) = 0.96"
    by (simp add: scoreModel_def Let_def nullish_def c k p a n) (simp add: DEFAULT_SCORING_WEIGHTS_def)
  have b: "breakdown (scoreModel ollamaCodingModel simpleCodingTask None None)
       = \<lparr> capability = 1, ModelScoreBreakdown.cost = 1,
           ModelScoreBreakdown.performance = 0.8, ModelScoreBreakdown.availability = 1 \<rparr>"
    by (simp add: scoreModel_def Let_def c k p a)
  from t b show ?thesis by simp
qed

text \<open>
  Claim C4: each of the four sub-scores of \<open>scoreModel\<close> and the weighted total score
  lie in [0,1].  The type \<open>ModelScore\<close> documents the total as a score from 0 to 1, and
  the tests of \<open>scoreModel\<close> expect it to be at most 1.  The code breaks this for the
  total: the weights 0.4005, 0.3, 0.2, 0.1 sum to 1.0005, within the tolerance of
  \<open>normalizeWeights\<close>, so they are used as they are, and nothing caps the weighted sum.
  A free reasoning model with a large context window has all four sub-scores 1 on a
  complex reasoning task, and its total score is 1.0005.
\<close>

theorem scoreModel_total_above_one:
  "weightSum nearUnitWeights = 1.0005
   \<and> normalizeWeights nearUnitWeights = nearUnitWeights
   \<and> breakdown (scoreModel freeReasoningModel complexReasoningTask (Some nearUnitWeights) None)
       = \<lparr> capability = 1, ModelScoreBreakdown.cost = 1,
           ModelScoreBreakdown.performance = 1, ModelScoreBreakdown.availability = 1 \<rparr>
   \<and> totalScore (scoreModel freeReasoningModel complexReasoningTask (Some nearUnitWeights) None) = 1.0005
   \<and> \<not> totalScore (scoreModel freeReasoningModel complexReasoningTask (Some nearUnitWeights) None) \<le> 1"
proof -
  have c: "scoreCapabilityMatch freeReasoningModel complexReasoningTask = 1"
    by (simp add: scoreCapabilityMatch_def freeReasoningModel_def complexReasoningTask_def mkTask_def
        mkCapabilities_def COMPLEXITY_LEVELS_def Let_def)
  have k: "scoreCostEfficiency freeReasoningModel = 1"
    by (simp add: scoreCostEfficiency_def freeReasoningModel_def mkCapabilities_def COST_TIER_SCORES_def)
  have p: "scorePerformance freeReasoningModel complexReasoningTask = 1"
    by (simp add: scorePerformance_def freeReasoningModel_def complexReasoningTask_def mkTask_def
        mkCapabilities_def Let_def)
  have a: "scoreAvailability freeReasoningModel None = 1"
    by (simp add: scoreAvailability_def)
  have s: "weightSum nearUnitWeights = 1.0005"
    by (simp add: weightSum_def nearUnitWeights_def mkWeights_def)
  have n: "normalizeWeights nearUnitWeights = nearUnitWeights"
    by (simp add: normalizeWeights_def nearUnitWeights_def mkWeights_def Let_def)
  have b: "breakdown (scoreModel freeReasoningModel complexReasoningTask (Some nearUnitWeights) None)
       = \<lparr> capability = 1, ModelScoreBreakdown.cost = 1,
           ModelScoreBreakdown.performance = 1, ModelScoreBreakdown.availability = 1 \<rparr>"
    by (simp add: scoreModel_def Let_def c k p a)
  have t: "totalScore (scoreModel freeReasoningModel complexReasoningTask (Some nearUnitWeights) None)
             = 1.0005"
    by (simp add: scoreModel_def Let_def nullish_def c k p a n)
       (simp add: nearUnitWeights_def mkWeights_def)
  show ?thesis
    by (simp add: s n b t)
qed


section \<open>Properties of the scorer: the ranking\<close>

lemma mset_binaryInsert: "mset (binaryInsert cmp work pivot) = add_mset pivot (mset work)"
proof -
  have "mset (take k work) + mset (drop k work) = mset work" for k
    by (metis append_take_drop_id mset_append)
  then show ?thesis by (simp add: binaryInsert_def Let_def)
qed

lemma mset_foldl_binaryInsert: "mset (foldl (binaryInsert cmp) work ps) = mset work + mset ps"
  by (induction ps arbitrary: work) (simp_all add: mset_binaryInsert)

lemma mset_take_drop: "mset (take k xs) + mset (drop k xs) = mset xs"
  by (metis append_take_drop_id mset_append)

lemma mset_toSorted: "mset (toSorted cmp xs) = mset xs"
  by (simp add: toSorted_def Let_def mset_foldl_binaryInsert mset_take_drop split: list.splits)

lemma length_toSorted: "length (toSorted cmp xs) = length xs"
  using mset_toSorted [of cmp xs] by (metis size_mset)

lemma toSorted_Nil: "toSorted cmp [] = []"
  by (simp add: toSorted_def)

lemma toSorted_single: "toSorted cmp [x] = [x]"
  by (simp add: toSorted_def)

lemma toSorted_pair: "toSorted cmp [x, y] = (if cmp y x < 0 then [y, x] else [x, y])"
  by (simp add: toSorted_def)

text \<open>
  For a consistent comparator the sort returns a sorted list in which the elements that
  compare as equal keep their order: the stable ordering.
\<close>

lemma binarySearch_splits:
  assumes "consistentComparator cmp"
    and "sorted_wrt (\<lambda>a b. \<not> cmp b a < 0) work"
    and "left \<le> right" "right \<le> length work"
    and "\<forall>i < left. \<not> cmp pivot (work ! i) < 0"
    and "\<forall>i. right \<le> i \<and> i < length work \<longrightarrow> cmp pivot (work ! i) < 0"
  shows "binarySearch cmp pivot work left right \<le> length work
       \<and> (\<forall>i < binarySearch cmp pivot work left right. \<not> cmp pivot (work ! i) < 0)
       \<and> (\<forall>i. binarySearch cmp pivot work left right \<le> i \<and> i < length work \<longrightarrow> cmp pivot (work ! i) < 0)"
  using assms
proof (induction cmp pivot work left right rule: binarySearch.induct)
  case (1 cmp pivot work left right)
  note swo = "1.prems"(1) and srt = "1.prems"(2)
  have negtrans: "\<not> cmp a c < 0" if "\<not> cmp a b < 0" "\<not> cmp b c < 0" for a b c
    using swo that unfolding consistentComparator_def by blast
  show ?case
  proof (cases "left < right")
    case False
    then have "binarySearch cmp pivot work left right = left"
      by (subst binarySearch.simps) simp
    with False "1.prems"(3-) show ?thesis by simp
  next
    case True
    define mid where "mid = left + (right - left) div 2"
    have m: "left \<le> mid" "mid < right" using True by (simp_all add: mid_def)
    with "1.prems"(4) have ml: "mid < length work" by simp
    show ?thesis
    proof (cases "cmp pivot (work ! mid) < 0")
      case lt: True
      have up: "\<forall>i. mid \<le> i \<and> i < length work \<longrightarrow> cmp pivot (work ! i) < 0"
      proof (intro allI impI)
        fix i assume i: "mid \<le> i \<and> i < length work"
        show "cmp pivot (work ! i) < 0"
        proof (cases "i = mid")
          case True
          with lt show ?thesis by simp
        next
          case False
          with i have "mid < i" by simp
          with srt i have "\<not> cmp (work ! i) (work ! mid) < 0"
            by (simp add: sorted_wrt_iff_nth_less)
          with lt negtrans [of pivot "work ! i" "work ! mid"] show ?thesis by blast
        qed
      qed
      have "binarySearch cmp pivot work left right = binarySearch cmp pivot work left mid"
        using True lt by (simp add: binarySearch.simps [of cmp pivot work left right] mid_def Let_def)
      moreover from "1.IH"(1) [OF True mid_def lt swo srt] m ml "1.prems"(5) up
      have "binarySearch cmp pivot work left mid \<le> length work
       \<and> (\<forall>i < binarySearch cmp pivot work left mid. \<not> cmp pivot (work ! i) < 0)
       \<and> (\<forall>i. binarySearch cmp pivot work left mid \<le> i \<and> i < length work \<longrightarrow> cmp pivot (work ! i) < 0)"
        by simp
      ultimately show ?thesis by simp
    next
      case ge: False
      have low: "\<forall>i < mid + 1. \<not> cmp pivot (work ! i) < 0"
      proof (intro allI impI)
        fix i assume i: "i < mid + 1"
        show "\<not> cmp pivot (work ! i) < 0"
        proof (cases "i = mid")
          case True
          with ge show ?thesis by simp
        next
          case False
          with i have "i < mid" by simp
          with srt ml have "\<not> cmp (work ! mid) (work ! i) < 0"
            by (simp add: sorted_wrt_iff_nth_less)
          with ge show ?thesis by (rule negtrans)
        qed
      qed
      have "binarySearch cmp pivot work left right = binarySearch cmp pivot work (mid + 1) right"
        using True ge by (simp add: binarySearch.simps [of cmp pivot work left right] mid_def Let_def)
      moreover from "1.IH"(2) [OF True mid_def ge swo srt] m "1.prems"(4,6) low
      have "binarySearch cmp pivot work (mid + 1) right \<le> length work
       \<and> (\<forall>i < binarySearch cmp pivot work (mid + 1) right. \<not> cmp pivot (work ! i) < 0)
       \<and> (\<forall>i. binarySearch cmp pivot work (mid + 1) right \<le> i \<and> i < length work \<longrightarrow> cmp pivot (work ! i) < 0)"
        by simp
      ultimately show ?thesis by simp
    qed
  qed
qed

lemma sorted_binaryInsert:
  assumes swo: "consistentComparator cmp"
    and srt: "sorted_wrt (\<lambda>a b. \<not> cmp b a < 0) work"
  shows "sorted_wrt (\<lambda>a b. \<not> cmp b a < 0) (binaryInsert cmp work pivot)"
proof -
  define k where "k = binarySearch cmp pivot work 0 (length work)"
  have spec: "k \<le> length work
       \<and> (\<forall>i < k. \<not> cmp pivot (work ! i) < 0)
       \<and> (\<forall>i. k \<le> i \<and> i < length work \<longrightarrow> cmp pivot (work ! i) < 0)"
    unfolding k_def by (rule binarySearch_splits [OF swo srt]) simp_all
  have asym: "\<not> cmp b a < 0" if "cmp a b < 0" for a b
    using swo that unfolding consistentComparator_def by blast
  have before: "\<not> cmp pivot x < 0" if "x \<in> set (take k work)" for x
  proof -
    from that obtain i where "i < k" "i < length work" "x = work ! i"
      by (auto simp: in_set_conv_nth)
    with spec show ?thesis by simp
  qed
  have after: "\<not> cmp y pivot < 0" if "y \<in> set (drop k work)" for y
  proof -
    from that obtain i where "i < length work - k" "y = work ! (k + i)"
      by (auto simp: in_set_conv_nth)
    with spec have "cmp pivot y < 0" by simp
    then show ?thesis by (rule asym)
  qed
  have across: "\<not> cmp y x < 0" if "x \<in> set (take k work)" "y \<in> set (drop k work)" for x y
    using srt that by (metis append_take_drop_id sorted_wrt_append)
  have "sorted_wrt (\<lambda>a b. \<not> cmp b a < 0) (take k work)"
    "sorted_wrt (\<lambda>a b. \<not> cmp b a < 0) (drop k work)"
    using srt by simp_all
  with before after across show ?thesis
    by (auto simp: binaryInsert_def Let_def k_def [symmetric] sorted_wrt_append)
qed

lemma sorted_foldl_binaryInsert:
  assumes "consistentComparator cmp" and "sorted_wrt (\<lambda>a b. \<not> cmp b a < 0) work"
  shows "sorted_wrt (\<lambda>a b. \<not> cmp b a < 0) (foldl (binaryInsert cmp) work ps)"
  using assms(2) by (induction ps arbitrary: work) (simp_all add: sorted_binaryInsert [OF assms(1)])

lemma countRun_ascending:
  "successively (\<lambda>a b. \<not> cmp b a < 0) (prev # take (countRun cmp False prev rest) rest)"
  by (induction rest arbitrary: prev) (simp_all add: Let_def)

lemma countRun_descending:
  "successively (\<lambda>a b. cmp b a < 0) (prev # take (countRun cmp True prev rest) rest)"
  by (induction rest arbitrary: prev) (simp_all add: Let_def not_le)

lemma sorted_toSorted:
  assumes swo: "consistentComparator cmp"
  shows "sorted_wrt (\<lambda>a b. \<not> cmp b a < 0) (toSorted cmp xs)"
proof (cases xs)
  case Nil
  then show ?thesis by (simp add: toSorted_def)
next
  case (Cons x0 ys)
  show ?thesis
  proof (cases ys)
    case Nil
    with Cons show ?thesis by (simp add: toSorted_def)
  next
    case (Cons x1 rest)
    have asym: "\<not> cmp b a < 0" if "cmp a b < 0" for a b
      using swo that unfolding consistentComparator_def by blast
    have negtrans: "\<not> cmp a c < 0" if "\<not> cmp a b < 0" "\<not> cmp b c < 0" for a b c
      using swo that unfolding consistentComparator_def by blast
    have tle: "transp (\<lambda>a b. \<not> cmp b a < 0)"
      by (rule transpI) (metis negtrans)
    have tlt: "transp (\<lambda>a b. cmp b a < 0)"
      by (rule transpI) (metis asym negtrans)
    define d where "d = (cmp x1 x0 < 0)"
    define n where "n = countRun cmp d x1 rest"
    have run: "sorted_wrt (\<lambda>a b. \<not> cmp b a < 0) (if d then rev (x0 # x1 # take n rest) else x0 # x1 # take n rest)"
    proof (cases d)
      case False
      then have "successively (\<lambda>a b. \<not> cmp b a < 0) (x0 # x1 # take n rest)"
        using countRun_ascending [of cmp x1 rest] by (simp add: n_def d_def)
      then have "sorted_wrt (\<lambda>a b. \<not> cmp b a < 0) (x0 # x1 # take n rest)"
        by (simp only: successively_conv_sorted_wrt [OF tle])
      with False show ?thesis by simp
    next
      case True
      then have "successively (\<lambda>a b. cmp b a < 0) (x0 # x1 # take n rest)"
        using countRun_descending [of cmp x1 rest] by (simp add: n_def d_def)
      then have "sorted_wrt (\<lambda>a b. cmp b a < 0) (x0 # x1 # take n rest)"
        by (simp only: successively_conv_sorted_wrt [OF tlt])
      then have "sorted_wrt (\<lambda>a b. cmp a b < 0) (rev (x0 # x1 # take n rest))"
        by (simp only: sorted_wrt_rev)
      then have "sorted_wrt (\<lambda>a b. \<not> cmp b a < 0) (rev (x0 # x1 # take n rest))"
        by (rule sorted_wrt_mono_rel [rotated]) (rule asym)
      with True show ?thesis by simp
    qed
    have "toSorted cmp xs =
            foldl (binaryInsert cmp) (if d then rev (x0 # x1 # take n rest) else x0 # x1 # take n rest)
              (drop n rest)"
      using \<open>xs = x0 # ys\<close> Cons by (simp add: toSorted_def Let_def d_def n_def)
    with run show ?thesis by (simp add: sorted_foldl_binaryInsert [OF swo])
  qed
qed


lemma equivalent_after:
  assumes swo: "consistentComparator cmp"
    and "\<not> cmp x p < 0" "\<not> cmp p x < 0" "cmp p y < 0"
  shows "cmp x y < 0"
  using assms unfolding consistentComparator_def by blast

lemma stable_binaryInsert:
  assumes swo: "consistentComparator cmp"
    and srt: "sorted_wrt (\<lambda>a b. \<not> cmp b a < 0) work"
  shows "filter (\<lambda>y. \<not> cmp x y < 0 \<and> \<not> cmp y x < 0) (binaryInsert cmp work pivot)
         = filter (\<lambda>y. \<not> cmp x y < 0 \<and> \<not> cmp y x < 0) (work @ [pivot])"
proof -
  define k where "k = binarySearch cmp pivot work 0 (length work)"
  have spec: "k \<le> length work
       \<and> (\<forall>i < k. \<not> cmp pivot (work ! i) < 0)
       \<and> (\<forall>i. k \<le> i \<and> i < length work \<longrightarrow> cmp pivot (work ! i) < 0)"
    unfolding k_def by (rule binarySearch_splits [OF swo srt]) simp_all
  have after: "cmp pivot y < 0" if "y \<in> set (drop k work)" for y
  proof -
    from that obtain i where "i < length work - k" "y = work ! (k + i)"
      by (auto simp: in_set_conv_nth)
    with spec show ?thesis by simp
  qed
  have split: "filter P work = filter P (take k work) @ filter P (drop k work)" for P
    by (metis append_take_drop_id filter_append)
  show ?thesis
  proof (cases "\<not> cmp x pivot < 0 \<and> \<not> cmp pivot x < 0")
    case True
    have "filter (\<lambda>y. \<not> cmp x y < 0 \<and> \<not> cmp y x < 0) (drop k work) = []"
      using after equivalent_after [OF swo, of x pivot] True by (auto simp: filter_empty_conv)
    with True show ?thesis
      by (simp add: binaryInsert_def Let_def k_def [symmetric]
          split [of "\<lambda>y. \<not> cmp x y < 0 \<and> \<not> cmp y x < 0"])
  next
    case False
    then show ?thesis
      by (auto simp: binaryInsert_def Let_def k_def [symmetric]
          split [of "\<lambda>y. \<not> cmp x y < 0 \<and> \<not> cmp y x < 0"])
  qed
qed

lemma stable_foldl_binaryInsert:
  assumes swo: "consistentComparator cmp"
    and srt: "sorted_wrt (\<lambda>a b. \<not> cmp b a < 0) work"
  shows "filter (\<lambda>y. \<not> cmp x y < 0 \<and> \<not> cmp y x < 0) (foldl (binaryInsert cmp) work ps)
         = filter (\<lambda>y. \<not> cmp x y < 0 \<and> \<not> cmp y x < 0) (work @ ps)"
  using srt
proof (induction ps arbitrary: work)
  case Nil
  then show ?case by simp
next
  case (Cons p ps)
  from Cons.IH [OF sorted_binaryInsert [OF swo Cons.prems], of p]
    stable_binaryInsert [OF swo Cons.prems, of x p]
  show ?case by simp
qed

lemma filter_rev_descending:
  assumes swo: "consistentComparator cmp"
    and "sorted_wrt (\<lambda>a b. cmp b a < 0) run"
  shows "filter (\<lambda>y. \<not> cmp x y < 0 \<and> \<not> cmp y x < 0) (rev run)
         = filter (\<lambda>y. \<not> cmp x y < 0 \<and> \<not> cmp y x < 0) run"
  using assms(2)
proof (induction run)
  case Nil
  then show ?case by simp
next
  case (Cons a as)
  from Cons.prems have below: "\<forall>b \<in> set as. cmp b a < 0" and tl: "sorted_wrt (\<lambda>a b. cmp b a < 0) as"
    by simp_all
  show ?case
  proof (cases "\<not> cmp x a < 0 \<and> \<not> cmp a x < 0")
    case True
    have "cmp b x < 0" if "b \<in> set as" for b
      using swo below that True unfolding consistentComparator_def by blast
    then have "filter (\<lambda>y. \<not> cmp x y < 0 \<and> \<not> cmp y x < 0) as = []"
      by (auto simp: filter_empty_conv)
    with Cons.IH [OF tl] True show ?thesis by simp
  next
    case False
    with Cons.IH [OF tl] show ?thesis by auto
  qed
qed

lemma stable_toSorted:
  assumes swo: "consistentComparator cmp"
  shows "filter (\<lambda>y. \<not> cmp x y < 0 \<and> \<not> cmp y x < 0) (toSorted cmp xs)
         = filter (\<lambda>y. \<not> cmp x y < 0 \<and> \<not> cmp y x < 0) xs"
proof (cases xs)
  case Nil
  then show ?thesis by (simp add: toSorted_def)
next
  case (Cons x0 ys)
  show ?thesis
  proof (cases ys)
    case Nil
    with Cons show ?thesis by (simp add: toSorted_def)
  next
    case (Cons x1 rest)
    have asym: "\<not> cmp b a < 0" if "cmp a b < 0" for a b
      using swo that unfolding consistentComparator_def by blast
    have negtrans: "\<not> cmp a c < 0" if "\<not> cmp a b < 0" "\<not> cmp b c < 0" for a b c
      using swo that unfolding consistentComparator_def by blast
    have tle: "transp (\<lambda>a b. \<not> cmp b a < 0)"
      by (rule transpI) (metis negtrans)
    have tlt: "transp (\<lambda>a b. cmp b a < 0)"
      by (rule transpI) (metis asym negtrans)
    define d where "d = (cmp x1 x0 < 0)"
    define n where "n = countRun cmp d x1 rest"
    define run where "run = x0 # x1 # take n rest"
    have xs: "xs = run @ drop n rest"
      using \<open>xs = x0 # ys\<close> Cons by (simp add: run_def)
    have srt: "sorted_wrt (\<lambda>a b. \<not> cmp b a < 0) (if d then rev run else run)"
      and same: "filter (\<lambda>y. \<not> cmp x y < 0 \<and> \<not> cmp y x < 0) (if d then rev run else run)
                 = filter (\<lambda>y. \<not> cmp x y < 0 \<and> \<not> cmp y x < 0) run"
    proof -
      show "sorted_wrt (\<lambda>a b. \<not> cmp b a < 0) (if d then rev run else run)"
      proof (cases d)
        case False
        then have "successively (\<lambda>a b. \<not> cmp b a < 0) run"
          using countRun_ascending [of cmp x1 rest] by (simp add: n_def d_def run_def)
        then have "sorted_wrt (\<lambda>a b. \<not> cmp b a < 0) run"
          by (simp only: successively_conv_sorted_wrt [OF tle])
        with False show ?thesis by simp
      next
        case True
        then have "successively (\<lambda>a b. cmp b a < 0) run"
          using countRun_descending [of cmp x1 rest] by (simp add: n_def d_def run_def)
        then have "sorted_wrt (\<lambda>a b. cmp b a < 0) run"
          by (simp only: successively_conv_sorted_wrt [OF tlt])
        then have "sorted_wrt (\<lambda>a b. cmp a b < 0) (rev run)"
          by (simp only: sorted_wrt_rev)
        then have "sorted_wrt (\<lambda>a b. \<not> cmp b a < 0) (rev run)"
          by (rule sorted_wrt_mono_rel [rotated]) (rule asym)
        with True show ?thesis by simp
      qed
      show "filter (\<lambda>y. \<not> cmp x y < 0 \<and> \<not> cmp y x < 0) (if d then rev run else run)
                 = filter (\<lambda>y. \<not> cmp x y < 0 \<and> \<not> cmp y x < 0) run"
      proof (cases d)
        case False
        then show ?thesis by simp
      next
        case True
        then have "successively (\<lambda>a b. cmp b a < 0) run"
          using countRun_descending [of cmp x1 rest] by (simp add: n_def d_def run_def)
        then have "sorted_wrt (\<lambda>a b. cmp b a < 0) run"
          by (simp only: successively_conv_sorted_wrt [OF tlt])
        with True show ?thesis by (simp add: filter_rev_descending [OF swo])
      qed
    qed
    have "toSorted cmp xs = foldl (binaryInsert cmp) (if d then rev run else run) (drop n rest)"
      using \<open>xs = x0 # ys\<close> Cons by (simp add: toSorted_def Let_def d_def n_def run_def)
    then show ?thesis
      using stable_foldl_binaryInsert [OF swo srt, of x "drop n rest"] same
      by (simp add: xs)
  qed
qed

lemma consistentComparator_key: "consistentComparator (\<lambda>a b. f b - f a)"
  by (auto simp: consistentComparator_def)

lemma mset_rankModels: "mset (rankModels ms task w) = mset (map (\<lambda>m. scoreModel m task w None) ms)"
  by (simp add: rankModels_def mset_toSorted)

lemma rankCompare_le_0_iff: "rankCompare a b \<le> 0 \<longleftrightarrow> rankedBefore a b"
  by (auto simp: rankCompare_def rankedBefore_def)

lemma score_nearContextModel:
  "totalScore (scoreModel nearContextModel thousandTokenTask (Some capabilityOnlyWeights) None) = 0.9995"
  "ModelScoreBreakdown.cost
     (breakdown (scoreModel nearContextModel thousandTokenTask (Some capabilityOnlyWeights) None)) = 1"
  "ModelScore.model (scoreModel nearContextModel thousandTokenTask (Some capabilityOnlyWeights) None)
     = ''small''"
proof -
  have c: "scoreCapabilityMatch nearContextModel thousandTokenTask = 0.9995"
    by (simp add: scoreCapabilityMatch_def nearContextModel_def thousandTokenTask_def mkTask_def
        mkCapabilities_def COMPLEXITY_LEVELS_def Let_def)
  have k: "scoreCostEfficiency nearContextModel = 1"
    by (simp add: scoreCostEfficiency_def nearContextModel_def mkCapabilities_def COST_TIER_SCORES_def)
  have n: "normalizeWeights capabilityOnlyWeights = capabilityOnlyWeights"
    by (simp add: normalizeWeights_def capabilityOnlyWeights_def mkWeights_def Let_def)
  show "totalScore (scoreModel nearContextModel thousandTokenTask (Some capabilityOnlyWeights) None) = 0.9995"
    by (simp add: scoreModel_def Let_def nullish_def c n) (simp add: capabilityOnlyWeights_def mkWeights_def)
  show "ModelScoreBreakdown.cost
     (breakdown (scoreModel nearContextModel thousandTokenTask (Some capabilityOnlyWeights) None)) = 1"
    by (simp add: scoreModel_def Let_def k)
  show "ModelScore.model (scoreModel nearContextModel thousandTokenTask (Some capabilityOnlyWeights) None)
     = ''small''"
    by (simp add: scoreModel_def Let_def nearContextModel_def mkEntry_def)
qed

lemma score_fullContextModel:
  "totalScore (scoreModel fullContextModel thousandTokenTask (Some capabilityOnlyWeights) None) = 1"
  "ModelScoreBreakdown.cost
     (breakdown (scoreModel fullContextModel thousandTokenTask (Some capabilityOnlyWeights) None)) = 0.2"
  "ModelScore.model (scoreModel fullContextModel thousandTokenTask (Some capabilityOnlyWeights) None)
     = ''large''"
proof -
  have c: "scoreCapabilityMatch fullContextModel thousandTokenTask = 1"
    by (simp add: scoreCapabilityMatch_def fullContextModel_def thousandTokenTask_def mkTask_def
        mkCapabilities_def COMPLEXITY_LEVELS_def Let_def)
  have k: "scoreCostEfficiency fullContextModel = 0.2"
    by (simp add: scoreCostEfficiency_def fullContextModel_def mkCapabilities_def COST_TIER_SCORES_def)
  have n: "normalizeWeights capabilityOnlyWeights = capabilityOnlyWeights"
    by (simp add: normalizeWeights_def capabilityOnlyWeights_def mkWeights_def Let_def)
  show "totalScore (scoreModel fullContextModel thousandTokenTask (Some capabilityOnlyWeights) None) = 1"
    by (simp add: scoreModel_def Let_def nullish_def c n) (simp add: capabilityOnlyWeights_def mkWeights_def)
  show "ModelScoreBreakdown.cost
     (breakdown (scoreModel fullContextModel thousandTokenTask (Some capabilityOnlyWeights) None)) = 0.2"
    by (simp add: scoreModel_def Let_def k)
  show "ModelScore.model (scoreModel fullContextModel thousandTokenTask (Some capabilityOnlyWeights) None)
     = ''large''"
    by (simp add: scoreModel_def Let_def fullContextModel_def mkEntry_def)
qed

lemma score_midContextModel:
  "totalScore (scoreModel midContextModel thousandTokenTask (Some capabilityOnlyWeights) None) = 0.9993"
  "ModelScoreBreakdown.cost
     (breakdown (scoreModel midContextModel thousandTokenTask (Some capabilityOnlyWeights) None)) = 0.4"
  "ModelScore.model (scoreModel midContextModel thousandTokenTask (Some capabilityOnlyWeights) None)
     = ''middle''"
proof -
  have c: "scoreCapabilityMatch midContextModel thousandTokenTask = 0.9993"
    by (simp add: scoreCapabilityMatch_def midContextModel_def thousandTokenTask_def mkTask_def
        mkCapabilities_def COMPLEXITY_LEVELS_def Let_def)
  have k: "scoreCostEfficiency midContextModel = 0.4"
    by (simp add: scoreCostEfficiency_def midContextModel_def mkCapabilities_def COST_TIER_SCORES_def)
  have n: "normalizeWeights capabilityOnlyWeights = capabilityOnlyWeights"
    by (simp add: normalizeWeights_def capabilityOnlyWeights_def mkWeights_def Let_def)
  show "totalScore (scoreModel midContextModel thousandTokenTask (Some capabilityOnlyWeights) None) = 0.9993"
    by (simp add: scoreModel_def Let_def nullish_def c n) (simp add: capabilityOnlyWeights_def mkWeights_def)
  show "ModelScoreBreakdown.cost
     (breakdown (scoreModel midContextModel thousandTokenTask (Some capabilityOnlyWeights) None)) = 0.4"
    by (simp add: scoreModel_def Let_def k)
  show "ModelScore.model (scoreModel midContextModel thousandTokenTask (Some capabilityOnlyWeights) None)
     = ''middle''"
    by (simp add: scoreModel_def Let_def midContextModel_def mkEntry_def)
qed

lemma score_lowContextModel:
  "totalScore (scoreModel lowContextModel thousandTokenTask (Some capabilityOnlyWeights) None) = 0.9986"
  "ModelScoreBreakdown.cost
     (breakdown (scoreModel lowContextModel thousandTokenTask (Some capabilityOnlyWeights) None)) = 1"
  "ModelScore.model (scoreModel lowContextModel thousandTokenTask (Some capabilityOnlyWeights) None)
     = ''tiny''"
proof -
  have c: "scoreCapabilityMatch lowContextModel thousandTokenTask = 0.9986"
    by (simp add: scoreCapabilityMatch_def lowContextModel_def thousandTokenTask_def mkTask_def
        mkCapabilities_def COMPLEXITY_LEVELS_def Let_def)
  have k: "scoreCostEfficiency lowContextModel = 1"
    by (simp add: scoreCostEfficiency_def lowContextModel_def mkCapabilities_def COST_TIER_SCORES_def)
  have n: "normalizeWeights capabilityOnlyWeights = capabilityOnlyWeights"
    by (simp add: normalizeWeights_def capabilityOnlyWeights_def mkWeights_def Let_def)
  show "totalScore (scoreModel lowContextModel thousandTokenTask (Some capabilityOnlyWeights) None) = 0.9986"
    by (simp add: scoreModel_def Let_def nullish_def c n) (simp add: capabilityOnlyWeights_def mkWeights_def)
  show "ModelScoreBreakdown.cost
     (breakdown (scoreModel lowContextModel thousandTokenTask (Some capabilityOnlyWeights) None)) = 1"
    by (simp add: scoreModel_def Let_def k)
  show "ModelScore.model (scoreModel lowContextModel thousandTokenTask (Some capabilityOnlyWeights) None)
     = ''tiny''"
    by (simp add: scoreModel_def Let_def lowContextModel_def mkEntry_def)
qed

lemma rankModels_context_example:
  "rankModels [fullContextModel, nearContextModel] thousandTokenTask (Some capabilityOnlyWeights) =
     [scoreModel nearContextModel thousandTokenTask (Some capabilityOnlyWeights) None,
      scoreModel fullContextModel thousandTokenTask (Some capabilityOnlyWeights) None]"
proof -
  have "rankCompare (scoreModel nearContextModel thousandTokenTask (Some capabilityOnlyWeights) None)
          (scoreModel fullContextModel thousandTokenTask (Some capabilityOnlyWeights) None) < 0"
    by (simp add: rankCompare_def score_nearContextModel score_fullContextModel)
  then show ?thesis
    by (simp add: rankModels_def toSorted_pair)
qed

lemma rankModels_context_example_swapped:
  "rankModels [nearContextModel, fullContextModel] thousandTokenTask (Some capabilityOnlyWeights) =
     [scoreModel nearContextModel thousandTokenTask (Some capabilityOnlyWeights) None,
      scoreModel fullContextModel thousandTokenTask (Some capabilityOnlyWeights) None]"
proof -
  have "\<not> rankCompare (scoreModel fullContextModel thousandTokenTask (Some capabilityOnlyWeights) None)
          (scoreModel nearContextModel thousandTokenTask (Some capabilityOnlyWeights) None) < 0"
    by (simp add: rankCompare_def score_nearContextModel score_fullContextModel)
  then show ?thesis
    by (simp add: rankModels_def toSorted_pair)
qed

text \<open>
  With the default weights, a free model with a context window of 12000 and a cheap model
  with one of 128000, on a task that estimates 50000 tokens, have the totals 0.8696 and
  0.87.
\<close>

lemma score_localSmallModel:
  "totalScore (scoreModel localSmallModel longCodingTask None None) = 0.8696"
  "ModelScoreBreakdown.cost (breakdown (scoreModel localSmallModel longCodingTask None None)) = 1"
  "ModelScore.model (scoreModel localSmallModel longCodingTask None None) = ''phi3:mini''"
proof -
  have n: "normalizeWeights DEFAULT_SCORING_WEIGHTS = DEFAULT_SCORING_WEIGHTS"
    by (simp add: normalizeWeights_def DEFAULT_SCORING_WEIGHTS_def Let_def)
  have c: "scoreCapabilityMatch localSmallModel longCodingTask = 0.924"
    by (simp add: scoreCapabilityMatch_def localSmallModel_def longCodingTask_def mkTask_def
        mkCapabilities_def COMPLEXITY_LEVELS_def Let_def)
  have k: "scoreCostEfficiency localSmallModel = 1"
    by (simp add: scoreCostEfficiency_def localSmallModel_def mkCapabilities_def COST_TIER_SCORES_def)
  have p: "scorePerformance localSmallModel longCodingTask = 0.5"
    by (simp add: scorePerformance_def localSmallModel_def longCodingTask_def mkTask_def
        mkCapabilities_def Let_def)
  have a: "scoreAvailability localSmallModel None = 1"
    by (simp add: scoreAvailability_def)
  show "totalScore (scoreModel localSmallModel longCodingTask None None) = 0.8696"
    by (simp add: scoreModel_def Let_def nullish_def c k p a n) (simp add: DEFAULT_SCORING_WEIGHTS_def)
  show "ModelScoreBreakdown.cost (breakdown (scoreModel localSmallModel longCodingTask None None)) = 1"
    by (simp add: scoreModel_def Let_def k)
  show "ModelScore.model (scoreModel localSmallModel longCodingTask None None) = ''phi3:mini''"
    by (simp add: scoreModel_def Let_def localSmallModel_def mkEntry_def)
qed

lemma score_hostedLargeModel:
  "totalScore (scoreModel hostedLargeModel longCodingTask None None) = 0.87"
  "ModelScoreBreakdown.cost (breakdown (scoreModel hostedLargeModel longCodingTask None None)) = 0.7"
  "ModelScore.model (scoreModel hostedLargeModel longCodingTask None None) = ''gpt-4o-mini''"
proof -
  have n: "normalizeWeights DEFAULT_SCORING_WEIGHTS = DEFAULT_SCORING_WEIGHTS"
    by (simp add: normalizeWeights_def DEFAULT_SCORING_WEIGHTS_def Let_def)
  have c: "scoreCapabilityMatch hostedLargeModel longCodingTask = 1"
    by (simp add: scoreCapabilityMatch_def hostedLargeModel_def longCodingTask_def mkTask_def
        mkCapabilities_def COMPLEXITY_LEVELS_def Let_def)
  have k: "scoreCostEfficiency hostedLargeModel = 0.7"
    by (simp add: scoreCostEfficiency_def hostedLargeModel_def mkCapabilities_def COST_TIER_SCORES_def)
  have p: "scorePerformance hostedLargeModel longCodingTask = 0.8"
    by (simp add: scorePerformance_def hostedLargeModel_def longCodingTask_def mkTask_def
        mkCapabilities_def Let_def)
  have a: "scoreAvailability hostedLargeModel None = 1"
    by (simp add: scoreAvailability_def)
  show "totalScore (scoreModel hostedLargeModel longCodingTask None None) = 0.87"
    by (simp add: scoreModel_def Let_def nullish_def c k p a n) (simp add: DEFAULT_SCORING_WEIGHTS_def)
  show "ModelScoreBreakdown.cost (breakdown (scoreModel hostedLargeModel longCodingTask None None)) = 0.7"
    by (simp add: scoreModel_def Let_def k)
  show "ModelScore.model (scoreModel hostedLargeModel longCodingTask None None) = ''gpt-4o-mini''"
    by (simp add: scoreModel_def Let_def hostedLargeModel_def mkEntry_def)
qed

lemma rankModels_default_example:
  "rankModels [hostedLargeModel, localSmallModel] longCodingTask None =
     [scoreModel localSmallModel longCodingTask None None,
      scoreModel hostedLargeModel longCodingTask None None]"
proof -
  have "rankCompare (scoreModel localSmallModel longCodingTask None None)
          (scoreModel hostedLargeModel longCodingTask None None) < 0"
    by (simp add: rankCompare_def score_localSmallModel score_hostedLargeModel)
  then show ?thesis
    by (simp add: rankModels_def toSorted_pair)
qed

text \<open>
  Claim C2: the list \<open>rankModels\<close> returns is sorted non-increasing by total score, and
  among entries whose total scores are within 0.001 of each other the cost score, then the
  performance score, is non-increasing.  The documentation of \<open>rankModels\<close> promises a
  list sorted by total score descending, and its test expects each total to be at least
  the next.  The code breaks this: its comparator takes totals within 0.001 of each other
  for equal and orders such entries by cost score.  With the default weights, of the two
  entries with the totals 0.87 and 0.8696 and the cost scores 0.7 and 1, the one with the
  smaller total comes first.  So it is with weights that count the capability score
  only, for the two entries with the totals 1 and 0.9995 and the cost scores 0.2 and 1,
  in whichever order the catalog has them.  The lists are not non-increasing in total
  score.
\<close>

theorem rankModels_near_tie_order:
  "map (\<lambda>s. (ModelScore.model s, totalScore s, ModelScoreBreakdown.cost (breakdown s)))
     (rankModels [hostedLargeModel, localSmallModel] longCodingTask None)
     = [(''phi3:mini'', 0.8696, 1), (''gpt-4o-mini'', 0.87, 0.7)]
   \<and> \<not> sorted_wrt (\<lambda>a b. totalScore a \<ge> totalScore b)
       (rankModels [hostedLargeModel, localSmallModel] longCodingTask None)
   \<and> map (\<lambda>s. (ModelScore.model s, totalScore s, ModelScoreBreakdown.cost (breakdown s)))
     (rankModels [fullContextModel, nearContextModel] thousandTokenTask (Some capabilityOnlyWeights))
     = [(''small'', 0.9995, 1), (''large'', 1, 0.2)]
   \<and> map (\<lambda>s. (ModelScore.model s, totalScore s, ModelScoreBreakdown.cost (breakdown s)))
     (rankModels [nearContextModel, fullContextModel] thousandTokenTask (Some capabilityOnlyWeights))
     = [(''small'', 0.9995, 1), (''large'', 1, 0.2)]
   \<and> \<not> sorted_wrt (\<lambda>a b. totalScore a \<ge> totalScore b)
       (rankModels [fullContextModel, nearContextModel] thousandTokenTask (Some capabilityOnlyWeights))
   \<and> \<not> sorted_wrt (\<lambda>a b. totalScore a \<ge> totalScore b)
       (rankModels [nearContextModel, fullContextModel] thousandTokenTask (Some capabilityOnlyWeights))"
  by (simp add: rankModels_default_example score_localSmallModel score_hostedLargeModel
      rankModels_context_example rankModels_context_example_swapped
      score_nearContextModel score_fullContextModel)

text \<open>
  The same tie makes the comparator not transitive: of three entries with the totals 1,
  0.9993 and 0.9986 and rising cost scores, each is ranked after the next, and the first
  before the last.  On them the sort finds a descending run and reverses it: the entry
  with the highest total comes last, 0.0014 above the entry that comes first.
\<close>

lemma rankCompare_not_transitive:
  "rankedBefore (scoreModel lowContextModel thousandTokenTask (Some capabilityOnlyWeights) None)
     (scoreModel midContextModel thousandTokenTask (Some capabilityOnlyWeights) None)
   \<and> rankedBefore (scoreModel midContextModel thousandTokenTask (Some capabilityOnlyWeights) None)
     (scoreModel fullContextModel thousandTokenTask (Some capabilityOnlyWeights) None)
   \<and> \<not> rankedBefore (scoreModel lowContextModel thousandTokenTask (Some capabilityOnlyWeights) None)
     (scoreModel fullContextModel thousandTokenTask (Some capabilityOnlyWeights) None)"
  by (simp add: rankedBefore_def score_lowContextModel score_midContextModel score_fullContextModel)

lemma rankCompare_not_consistent: "\<not> consistentComparator rankCompare"
proof
  assume c: "consistentComparator rankCompare"
  have 1: "rankCompare (scoreModel lowContextModel thousandTokenTask (Some capabilityOnlyWeights) None)
          (scoreModel midContextModel thousandTokenTask (Some capabilityOnlyWeights) None) < 0"
    by (simp add: rankCompare_def score_midContextModel score_lowContextModel)
  have 2: "rankCompare (scoreModel midContextModel thousandTokenTask (Some capabilityOnlyWeights) None)
          (scoreModel fullContextModel thousandTokenTask (Some capabilityOnlyWeights) None) < 0"
    by (simp add: rankCompare_def score_midContextModel score_fullContextModel)
  have 3: "\<not> rankCompare (scoreModel lowContextModel thousandTokenTask (Some capabilityOnlyWeights) None)
          (scoreModel fullContextModel thousandTokenTask (Some capabilityOnlyWeights) None) < 0"
    by (simp add: rankCompare_def score_lowContextModel score_fullContextModel)
  from c 1 2 3 show False unfolding consistentComparator_def by blast
qed

lemma rankModels_three_near_ties:
  "map (\<lambda>s. (ModelScore.model s, totalScore s, ModelScoreBreakdown.cost (breakdown s)))
     (rankModels [fullContextModel, midContextModel, lowContextModel] thousandTokenTask
        (Some capabilityOnlyWeights))
     = [(''tiny'', 0.9986, 1), (''middle'', 0.9993, 0.4), (''large'', 1, 0.2)]"
proof -
  have 1: "rankCompare (scoreModel midContextModel thousandTokenTask (Some capabilityOnlyWeights) None)
          (scoreModel fullContextModel thousandTokenTask (Some capabilityOnlyWeights) None) < 0"
    by (simp add: rankCompare_def score_midContextModel score_fullContextModel)
  have 2: "\<not> 0 \<le> rankCompare (scoreModel lowContextModel thousandTokenTask (Some capabilityOnlyWeights) None)
          (scoreModel midContextModel thousandTokenTask (Some capabilityOnlyWeights) None)"
    by (simp add: rankCompare_def score_midContextModel score_lowContextModel)
  have "rankModels [fullContextModel, midContextModel, lowContextModel] thousandTokenTask
        (Some capabilityOnlyWeights)
     = [scoreModel lowContextModel thousandTokenTask (Some capabilityOnlyWeights) None,
        scoreModel midContextModel thousandTokenTask (Some capabilityOnlyWeights) None,
        scoreModel fullContextModel thousandTokenTask (Some capabilityOnlyWeights) None]"
    by (simp add: rankModels_def toSorted_def Let_def 1 2)
  then show ?thesis
    by (simp add: score_lowContextModel score_midContextModel score_fullContextModel)
qed

section \<open>Properties of the router: empty filter results\<close>

lemma length_rankModels: "length (rankModels ms task w) = length ms"
  by (simp add: rankModels_def length_toSorted)

lemma length_applyProviderPreference:
  "length (fst (applyProviderPreference router rs tc)) = length rs"
  by (simp add: applyProviderPreference_def Let_def length_toSorted split: prod.splits option.splits)

lemma routedCatalog_not_Nil: "catalog router \<noteq> [] \<Longrightarrow> routedCatalog router allowed tc \<noteq> []"
  by (simp add: routedCatalog_def Let_def)

lemma selectModelForTask_routes:
  assumes "catalog router \<noteq> []" and "enabled (config router)"
  shows "selectModelForTask router options \<noteq> None"
proof -
  define tc where "tc = classifyTask (prompt options) (hasImages options) (hints options)"
  define rs where "rs = rankModels (routedCatalog router (TaskRoutingOptions.allowedProviders options) tc) tc
      (Some (applyRoutingStrategy router (scoringWeights (config router))))"
  have "length rs \<noteq> 0"
    using routedCatalog_not_Nil [OF assms(1)] by (simp add: rs_def length_rankModels)
  moreover from this have "fst (applyProviderPreference router rs tc) \<noteq> []"
    using length_applyProviderPreference [of router rs tc] by auto
  ultimately show ?thesis
    using assms(2)
    by (auto simp: selectModelForTask_def Let_def tc_def [symmetric] rs_def [symmetric]
        split: option.splits prod.splits list.splits)
qed

text \<open>
  Claim C7, as amended.  An empty result of a filtering stage is replaced by the router's
  full catalog: when the allowed providers leave nothing, the full catalog goes on to the
  rules; when the rules leave nothing of what they were given, the full catalog is ranked,
  whatever the allowed providers had left of it.  So the catalog that is ranked is not
  empty when the router's catalog is not, and with routing enabled \<open>selectModelForTask\<close>
  then returns a selection.
\<close>

theorem routing_filters_fall_back:
  "(filterModelsByCapabilities (catalog router)
       \<lparr> ModelFilterRequirements.requiresVision = None,
         ModelFilterRequirements.requiresReasoning = None,
         ModelFilterRequirements.minContextWindow = None,
         ModelFilterRequirements.allowedProviders = Some ps \<rparr> = []
      \<longrightarrow> allowedCatalog router (Some ps) = catalog router)
   \<and> (applyTaskRules router (allowedCatalog router allowed) tc = []
      \<longrightarrow> routedCatalog router allowed tc = catalog router)
   \<and> (applyTaskRules router (allowedCatalog router allowed) tc \<noteq> []
      \<longrightarrow> routedCatalog router allowed tc = applyTaskRules router (allowedCatalog router allowed) tc)
   \<and> (catalog router \<noteq> [] \<longrightarrow> routedCatalog router allowed tc \<noteq> [])
   \<and> (catalog router \<noteq> [] \<and> enabled (config router) \<longrightarrow> selectModelForTask router options \<noteq> None)"
  using selectModelForTask_routes [of router options]
  by (simp add: allowedCatalog_def routedCatalog_def Let_def)

text \<open>The example router, on the general task, with the local provider alone allowed.\<close>

lemma ruleRouter_allowedCatalog: "allowedCatalog ruleRouter (Some [''ollama'']) = [ollamaCodingModel]"
  by (simp add: allowedCatalog_def ruleRouter_def filterModelsByCapabilities_def meetsRequirements_def
      Let_def nullish_def ollamaCodingModel_def cloudReasoningModel_def mkEntry_def
      toLowerCase_def toLowerCase_char_def)

lemma ruleRouter_applyTaskRules:
  "applyTaskRules ruleRouter [ollamaCodingModel] simpleGeneralTask = []"
  by (simp add: applyTaskRules_def ruleRouter_def DEFAULT_ROUTING_CONFIG_def reasoningRule_def
      ruleMatches_def applyTaskRule_def simpleGeneralTask_def mkTask_def
      filterModelsByCapabilities_def meetsRequirements_def Let_def nullish_def
      ollamaCodingModel_def mkCapabilities_def)

lemma classifyTask_hintedGeneralOptions:
  "classifyTask (prompt hintedGeneralOptions) (hasImages hintedGeneralOptions)
     (hints hintedGeneralOptions) = simpleGeneralTask"
  by (simp add: hintedGeneralOptions_def classifyTask_def opt_field_def nullish_def
      simpleGeneralTask_def mkTask_def)

lemma ruleRouter_weights:
  "applyRoutingStrategy ruleRouter (scoringWeights (config ruleRouter)) = DEFAULT_SCORING_WEIGHTS"
  by (simp add: applyRoutingStrategy_def ruleRouter_def DEFAULT_ROUTING_CONFIG_def)
     (simp add: normalizeWeights_def DEFAULT_SCORING_WEIGHTS_def Let_def)

lemma score_general_ollama:
  "totalScore (scoreModel ollamaCodingModel simpleGeneralTask (Some DEFAULT_SCORING_WEIGHTS) None) = 0.96"
  "ModelScore.provider (scoreModel ollamaCodingModel simpleGeneralTask (Some DEFAULT_SCORING_WEIGHTS) None)
     = ''ollama''"
  "ModelScore.model (scoreModel ollamaCodingModel simpleGeneralTask (Some DEFAULT_SCORING_WEIGHTS) None)
     = ''codellama:7b''"
proof -
  have c: "scoreCapabilityMatch ollamaCodingModel simpleGeneralTask = 1"
    by (simp add: scoreCapabilityMatch_def ollamaCodingModel_def simpleGeneralTask_def mkTask_def
        mkCapabilities_def COMPLEXITY_LEVELS_def Let_def)
  have k: "scoreCostEfficiency ollamaCodingModel = 1"
    by (simp add: scoreCostEfficiency_def ollamaCodingModel_def mkCapabilities_def COST_TIER_SCORES_def)
  have p: "scorePerformance ollamaCodingModel simpleGeneralTask = 0.8"
    by (simp add: scorePerformance_def ollamaCodingModel_def simpleGeneralTask_def mkTask_def
        mkCapabilities_def Let_def)
  have a: "scoreAvailability ollamaCodingModel None = 1"
    by (simp add: scoreAvailability_def)
  have n: "normalizeWeights DEFAULT_SCORING_WEIGHTS = DEFAULT_SCORING_WEIGHTS"
    by (simp add: normalizeWeights_def DEFAULT_SCORING_WEIGHTS_def Let_def)
  show "totalScore (scoreModel ollamaCodingModel simpleGeneralTask (Some DEFAULT_SCORING_WEIGHTS) None) = 0.96"
    by (simp add: scoreModel_def Let_def nullish_def c k p a n) (simp add: DEFAULT_SCORING_WEIGHTS_def)
  show "ModelScore.provider (scoreModel ollamaCodingModel simpleGeneralTask (Some DEFAULT_SCORING_WEIGHTS) None)
     = ''ollama''"
    by (simp add: scoreModel_def Let_def ollamaCodingModel_def mkEntry_def)
  show "ModelScore.model (scoreModel ollamaCodingModel simpleGeneralTask (Some DEFAULT_SCORING_WEIGHTS) None)
     = ''codellama:7b''"
    by (simp add: scoreModel_def Let_def ollamaCodingModel_def mkEntry_def)
qed

lemma score_general_cloud:
  "totalScore (scoreModel cloudReasoningModel simpleGeneralTask (Some DEFAULT_SCORING_WEIGHTS) None) = 0.74"
  "ModelScore.provider (scoreModel cloudReasoningModel simpleGeneralTask (Some DEFAULT_SCORING_WEIGHTS) None)
     = ''anthropic''"
  "ModelScore.model (scoreModel cloudReasoningModel simpleGeneralTask (Some DEFAULT_SCORING_WEIGHTS) None)
     = ''claude-3-opus''"
proof -
  have c: "scoreCapabilityMatch cloudReasoningModel simpleGeneralTask = 1"
    by (simp add: scoreCapabilityMatch_def cloudReasoningModel_def simpleGeneralTask_def mkTask_def
        mkCapabilities_def COMPLEXITY_LEVELS_def Let_def)
  have k: "scoreCostEfficiency cloudReasoningModel = 0.2"
    by (simp add: scoreCostEfficiency_def cloudReasoningModel_def mkCapabilities_def COST_TIER_SCORES_def)
  have p: "scorePerformance cloudReasoningModel simpleGeneralTask = 0.9"
    by (simp add: scorePerformance_def cloudReasoningModel_def simpleGeneralTask_def mkTask_def
        mkCapabilities_def Let_def)
  have a: "scoreAvailability cloudReasoningModel None = 1"
    by (simp add: scoreAvailability_def)
  have n: "normalizeWeights DEFAULT_SCORING_WEIGHTS = DEFAULT_SCORING_WEIGHTS"
    by (simp add: normalizeWeights_def DEFAULT_SCORING_WEIGHTS_def Let_def)
  show "totalScore (scoreModel cloudReasoningModel simpleGeneralTask (Some DEFAULT_SCORING_WEIGHTS) None) = 0.74"
    by (simp add: scoreModel_def Let_def nullish_def c k p a n) (simp add: DEFAULT_SCORING_WEIGHTS_def)
  show "ModelScore.provider (scoreModel cloudReasoningModel simpleGeneralTask (Some DEFAULT_SCORING_WEIGHTS) None)
     = ''anthropic''"
    by (simp add: scoreModel_def Let_def cloudReasoningModel_def mkEntry_def)
  show "ModelScore.model (scoreModel cloudReasoningModel simpleGeneralTask (Some DEFAULT_SCORING_WEIGHTS) None)
     = ''claude-3-opus''"
    by (simp add: scoreModel_def Let_def cloudReasoningModel_def mkEntry_def)
qed

lemma ruleRouter_ranked:
  "rankModels [ollamaCodingModel, cloudReasoningModel] simpleGeneralTask (Some DEFAULT_SCORING_WEIGHTS) =
     [scoreModel ollamaCodingModel simpleGeneralTask (Some DEFAULT_SCORING_WEIGHTS) None,
      scoreModel cloudReasoningModel simpleGeneralTask (Some DEFAULT_SCORING_WEIGHTS) None]"
proof -
  have "\<not> rankCompare (scoreModel cloudReasoningModel simpleGeneralTask (Some DEFAULT_SCORING_WEIGHTS) None)
          (scoreModel ollamaCodingModel simpleGeneralTask (Some DEFAULT_SCORING_WEIGHTS) None) < 0"
    by (simp add: rankCompare_def score_general_ollama score_general_cloud)
  then show ?thesis
    by (simp add: rankModels_def toSorted_pair)
qed

lemma ruleRouter_preference:
  "applyProviderPreference ruleRouter
        [scoreModel ollamaCodingModel simpleGeneralTask (Some DEFAULT_SCORING_WEIGHTS) None,
         scoreModel cloudReasoningModel simpleGeneralTask (Some DEFAULT_SCORING_WEIGHTS) None]
        simpleGeneralTask
   = ([(scoreModel ollamaCodingModel simpleGeneralTask (Some DEFAULT_SCORING_WEIGHTS) None)
         \<lparr> totalScore := 1 \<rparr>,
       scoreModel cloudReasoningModel simpleGeneralTask (Some DEFAULT_SCORING_WEIGHTS) None],
      PreferLocal)"
proof -
  have t: "TaskClassification.complexity simpleGeneralTask = SimpleTask"
    "\<not> TaskClassification.requiresReasoning simpleGeneralTask"
    by (simp_all add: simpleGeneralTask_def mkTask_def)
  have l: "map toLowerCase (localProviders (config ruleRouter)) = [''ollama'']"
    "preferLocal (config ruleRouter)"
    by (simp_all add: ruleRouter_def DEFAULT_ROUTING_CONFIG_def toLowerCase_def toLowerCase_char_def)
  have b1: "boostScore [''ollama'']
              (scoreModel ollamaCodingModel simpleGeneralTask (Some DEFAULT_SCORING_WEIGHTS) None)
            = (scoreModel ollamaCodingModel simpleGeneralTask (Some DEFAULT_SCORING_WEIGHTS) None)
                \<lparr> totalScore := 1 \<rparr>"
    by (simp add: boostScore_def score_general_ollama toLowerCase_def toLowerCase_char_def)
  have b2: "boostScore [''ollama'']
              (scoreModel cloudReasoningModel simpleGeneralTask (Some DEFAULT_SCORING_WEIGHTS) None)
            = scoreModel cloudReasoningModel simpleGeneralTask (Some DEFAULT_SCORING_WEIGHTS) None"
    by (simp add: boostScore_def score_general_cloud toLowerCase_def toLowerCase_char_def)
  show ?thesis
    by (simp add: applyProviderPreference_def Let_def t l b1 b2 toSorted_pair score_general_cloud)
qed

lemma ruleRouter_select:
  "map_option (\<lambda>r. (primary r, fallbacks r)) (selectModelForTask ruleRouter hintedGeneralOptions)
   = Some (\<lparr> ModelRef.provider = ''ollama'', ModelRef.model = ''codellama:7b'' \<rparr>,
           Some [\<lparr> ModelRef.provider = ''anthropic'', ModelRef.model = ''claude-3-opus'' \<rparr>])"
proof -
  have o: "overrideModel hintedGeneralOptions = None"
    "TaskRoutingOptions.allowedProviders hintedGeneralOptions = Some [''ollama'']"
    by (simp_all add: hintedGeneralOptions_def)
  have e: "enabled (config ruleRouter)" "catalog ruleRouter = [ollamaCodingModel, cloudReasoningModel]"
    by (simp_all add: ruleRouter_def DEFAULT_ROUTING_CONFIG_def)
  have r: "routedCatalog ruleRouter (Some [''ollama'']) simpleGeneralTask
             = [ollamaCodingModel, cloudReasoningModel]"
    by (simp add: routedCatalog_def ruleRouter_allowedCatalog ruleRouter_applyTaskRules e)
  have f: "router_generateFallbackList
             [(scoreModel ollamaCodingModel simpleGeneralTask (Some DEFAULT_SCORING_WEIGHTS) None)
                \<lparr> totalScore := 1 \<rparr>,
              scoreModel cloudReasoningModel simpleGeneralTask (Some DEFAULT_SCORING_WEIGHTS) None]
             \<lparr> ModelRef.provider = ''ollama'', ModelRef.model = ''codellama:7b'' \<rparr> defaultMaxFallbacks
           = Some [\<lparr> ModelRef.provider = ''anthropic'', ModelRef.model = ''claude-3-opus'' \<rparr>]"
    by (simp add: router_generateFallbackList_def defaultMaxFallbacks_def scoreKey_def refOfScore_def
        score_general_ollama score_general_cloud toLowerCase_def toLowerCase_char_def Let_def)
  show ?thesis
    by (simp add: selectModelForTask_def o e(1) classifyTask_hintedGeneralOptions r ruleRouter_weights
        ruleRouter_ranked ruleRouter_preference Let_def score_general_ollama f)
qed

theorem routing_filters_fall_back_witness:
  "catalog ruleRouter \<noteq> [] \<and> enabled (config ruleRouter)
   \<and> routedCatalog ruleRouter (Some [''ollama'']) simpleGeneralTask = catalog ruleRouter
   \<and> selectModelForTask ruleRouter hintedGeneralOptions \<noteq> None"
  using routing_filters_fall_back [of ruleRouter "[''ollama'']" "Some [''ollama'']" simpleGeneralTask
      hintedGeneralOptions]
  by (simp add: ruleRouter_allowedCatalog ruleRouter_applyTaskRules)
     (simp add: ruleRouter_def DEFAULT_ROUTING_CONFIG_def)

text \<open>
  The claim as stated fails on the example: the allowed providers leave the local model,
  the rule leaves nothing of it, and what is ranked is the full catalog, not the catalog
  the rules were given.  The selection then offers the cloud model as a fallback although
  its provider is not allowed.
\<close>

theorem routing_filters_fall_back_counterexample:
  "allowedCatalog ruleRouter (Some [''ollama'']) = [ollamaCodingModel]
   \<and> applyTaskRules ruleRouter (allowedCatalog ruleRouter (Some [''ollama''])) simpleGeneralTask = []
   \<and> routedCatalog ruleRouter (Some [''ollama'']) simpleGeneralTask
       = [ollamaCodingModel, cloudReasoningModel]
   \<and> routedCatalog ruleRouter (Some [''ollama'']) simpleGeneralTask
       \<noteq> allowedCatalog ruleRouter (Some [''ollama''])
   \<and> map_option fallbacks (selectModelForTask ruleRouter hintedGeneralOptions)
       = Some (Some [\<lparr> ModelRef.provider = ''anthropic'', ModelRef.model = ''claude-3-opus'' \<rparr>])"
proof -
  have "map_option fallbacks (selectModelForTask ruleRouter hintedGeneralOptions)
       = Some (Some [\<lparr> ModelRef.provider = ''anthropic'', ModelRef.model = ''claude-3-opus'' \<rparr>])"
    using ruleRouter_select by (cases "selectModelForTask ruleRouter hintedGeneralOptions") simp_all
  then show ?thesis
    by (simp add: routedCatalog_def ruleRouter_allowedCatalog ruleRouter_applyTaskRules)
       (simp add: ruleRouter_def)
qed


section \<open>Properties of the catalog cache\<close>

lemma sortModels_Nil [simp]: "sortModels lc [] = []"
  by (simp add: sortModels_def toSorted_Nil)

lemma sortModels_single: "sortModels lc [m] = [m]"
  by (simp add: sortModels_def toSorted_single)

lemma loadModelCatalog_cached:
  assumes "modelCatalogPromise st = Some h" and "uc \<noteq> Some False"
  shows "loadModelCatalog uc r st = (h, st)"
  using assms by (simp add: loadModelCatalog_def)

lemma loadModelCatalog_starts:
  assumes "modelCatalogPromise st = None \<or> uc = Some False"
  shows "loadModelCatalog uc False st =
           (length (promises st),
            st \<lparr> promises := promises st @ [None], modelCatalogPromise := Some (length (promises st)) \<rparr>)"
  using assms by (auto simp: loadModelCatalog_def Let_def)

lemma loadModelCatalog_starts_length:
  assumes "modelCatalogPromise st = None \<or> uc = Some False"
  shows "fst (loadModelCatalog uc r st) = length (promises st)
         \<and> length (promises (snd (loadModelCatalog uc r st))) = Suc (length (promises st))"
  using assms by (auto simp: loadModelCatalog_def Let_def)

lemma loadModelCatalog_caches:
  "modelCatalogPromise (snd (loadModelCatalog uc r st)) = Some (fst (loadModelCatalog uc r st))"
  by (auto simp: loadModelCatalog_def Let_def split: option.splits)

lemma loadAll_cached:
  assumes "modelCatalogPromise st = Some h" and "\<forall>c \<in> set calls. fst c \<noteq> Some False"
  shows "loadAll calls st = st"
  using assms by (induction calls) (simp_all add: loadAll_def loadModelCatalog_cached split_beta)

lemma settle_Failed:
  assumes "isPending st h"
  shows "settle lc h (Failed es) st =
           st \<lparr> hasLoggedModelCatalogError := True,
                warnings := warnings st + (if hasLoggedModelCatalogError st then 0 else 1),
                modelCatalogPromise := None,
                promises := (promises st) [h := Some (sortModels lc (catalogEntriesOf es))] \<rparr>"
  using assms by (cases "catalogEntriesOf es") (auto simp: settle_def Let_def)

lemma settle_Discovered:
  assumes "isPending st h"
  shows "settle lc h (Discovered es) st =
           st \<lparr> modelCatalogPromise :=
                  (if catalogEntriesOf es = [] then None else modelCatalogPromise st),
                promises := (promises st) [h := Some (sortModels lc (catalogEntriesOf es))] \<rparr>"
  using assms by (auto simp: settle_def Let_def)




lemma catalogEntriesOf_Nil: "catalogEntriesOf [] = []"
  by (simp add: catalogEntriesOf_def)

lemma catalogEntriesOf_plainModel: "catalogEntriesOf [plainModel] = [plainEntry]"
  by (simp add: catalogEntriesOf_def catalogEntryOf_def plainModel_def
      plainEntry_def trim_def isWhiteSpace_def nullish_def resolveModelCost_def Let_def)




text \<open>
  Beyond the claim: the end of a load that was bypassed while pending still clears the
  cache.  Here the second load, started with a bypass, has resolved to an entry and is
  cached; the failure of the first load then clears the cache.
\<close>

lemma stale_failure_clears_newer_cache:
  "modelCatalogPromise
     (catalogRun noCollation
        [Load None False, Load (Some False) False, Settle 1 (Discovered [plainModel])])
     = Some 1
   \<and> promises
     (catalogRun noCollation
        [Load None False, Load (Some False) False, Settle 1 (Discovered [plainModel])]) ! 1
     = Some [plainEntry]
   \<and> modelCatalogPromise
     (catalogRun noCollation
        [Load None False, Load (Some False) False, Settle 1 (Discovered [plainModel]),
         Settle 0 (Failed [])])
     = None"
  by (simp add: catalogRun_def catalogStep_def loadModelCatalog_def initialCatalogState_def
      settle_def isPending_def Let_def catalogEntriesOf_plainModel catalogEntriesOf_Nil
      sortModels_single)

text \<open>
  Beyond the claim: a body that raises before its first \<open>await\<close> never becomes a pending
  load.  Its \<open>catch\<close> block clears the cache before the new promise is stored in it, so
  the promise, resolved to the empty list, stays cached: the next call returns it and
  starts nothing.
\<close>

lemma failure_before_first_await_is_cached:
  "modelCatalogPromise (catalogRun noCollation [Load None True]) = Some 0
   \<and> promises (catalogRun noCollation [Load None True]) ! 0 = Some []
   \<and> \<not> isPending (catalogRun noCollation [Load None True]) 0
   \<and> warnings (catalogRun noCollation [Load None True]) = 1
   \<and> loadModelCatalog None False (catalogRun noCollation [Load None True])
       = (0, catalogRun noCollation [Load None True])"
  by (simp add: catalogRun_def catalogStep_def loadModelCatalog_def initialCatalogState_def
      isPending_def Let_def)

text \<open>
  As long as no call has bypassed the cache, a pending load is the cached one: a call
  starts a load only when the cache is empty, and the end of a load is the only step that
  empties the cache.
\<close>

lemma pending_is_cached_step:
  assumes inv: "\<And>h. isPending st h \<Longrightarrow> modelCatalogPromise st = Some h"
    and ev: "\<not> bypassesCache ev"
    and p: "isPending (catalogStep lc st ev) h"
  shows "modelCatalogPromise (catalogStep lc st ev) = Some h"
proof (cases ev)
  case (Load uc r)
  with ev have uc: "uc \<noteq> Some False" by (simp add: bypassesCache_def)
  show ?thesis
  proof (cases "modelCatalogPromise st")
    case (Some h0)
    with uc Load have "catalogStep lc st ev = st"
      by (simp add: catalogStep_def loadModelCatalog_cached)
    with p inv show ?thesis by simp
  next
    case None
    with inv have none: "\<not> isPending st k" for k by fastforce
    from None uc Load have c: "modelCatalogPromise (catalogStep lc st ev) = Some (length (promises st))"
      by (simp add: catalogStep_def loadModelCatalog_def Let_def)
    from None uc Load have
      "promises (catalogStep lc st ev) = promises st @ [if r then Some [] else None]"
      by (simp add: catalogStep_def loadModelCatalog_def Let_def)
    with p have "h < Suc (length (promises st))"
      and "(promises st @ [if r then Some [] else None]) ! h = None"
      by (simp_all add: isPending_def)
    with none [of h] have "h = length (promises st)"
      by (cases "h < length (promises st)") (simp_all add: isPending_def nth_append)
    with c show ?thesis by simp
  qed
next
  case (Settle h0 outcome)
  show ?thesis
  proof (cases "isPending st h0")
    case False
    with Settle have "catalogStep lc st ev = st" by (simp add: catalogStep_def settle_def)
    with p inv show ?thesis by simp
  next
    case True
    have len: "length (promises (settle lc h0 outcome st)) = length (promises st)"
      using True by (cases outcome) (simp_all add: settle_Failed settle_Discovered)
    have upd: "promises (settle lc h0 outcome st) ! h0 \<noteq> None"
      using True by (cases outcome) (simp_all add: settle_Failed settle_Discovered isPending_def)
    have other: "promises (settle lc h0 outcome st) ! k = promises st ! k" if "k \<noteq> h0" for k
      using True that by (cases outcome) (simp_all add: settle_Failed settle_Discovered)
    from p Settle have ph: "isPending (settle lc h0 outcome st) h" by (simp add: catalogStep_def)
    with upd have "h \<noteq> h0" by (auto simp: isPending_def)
    with ph len other [of h] have "isPending st h" by (simp add: isPending_def)
    with inv have "modelCatalogPromise st = Some h" by simp
    moreover from inv True have "modelCatalogPromise st = Some h0" by simp
    ultimately show ?thesis using \<open>h \<noteq> h0\<close> by simp
  qed
qed

lemma pending_is_cached_foldl:
  assumes "\<And>h. isPending st h \<Longrightarrow> modelCatalogPromise st = Some h"
    and "\<forall>ev \<in> set evs. \<not> bypassesCache ev"
    and "isPending (foldl (catalogStep lc) st evs) h"
  shows "modelCatalogPromise (foldl (catalogStep lc) st evs) = Some h"
  using assms
proof (induction evs arbitrary: st h)
  case Nil
  then show ?case by simp
next
  case (Cons ev evs)
  have e: "\<not> bypassesCache ev" using Cons.prems(2) by simp
  have "modelCatalogPromise (catalogStep lc st ev) = Some k" if "isPending (catalogStep lc st ev) k" for k
    using Cons.prems(1) e that by (rule pending_is_cached_step)
  then show ?case
    using Cons.IH [of "catalogStep lc st ev" h] Cons.prems(2,3) by simp
qed

lemma pending_is_cached:
  assumes "\<forall>ev \<in> set evs. \<not> bypassesCache ev" and "isPending (catalogRun lc evs) h"
  shows "modelCatalogPromise (catalogRun lc evs) = Some h"
proof -
  have "modelCatalogPromise initialCatalogState = Some k" if "isPending initialCatalogState k" for k
    using that by (simp add: isPending_def initialCatalogState_def)
  then show ?thesis
    using assms unfolding catalogRun_def by (rule pending_is_cached_foldl)
qed

text \<open>
  Claim C9, as amended.  Catalog loading is single-flight as long as no call bypasses
  the cache.
  \<^item> In a run of calls and ends of loads from the initial state in which no call has
    passed \<open>useCache: false\<close>, a call without \<open>useCache: false\<close> that is issued while a
    load is pending returns the promise of that load and starts nothing: both callers
    have the same pending result, and the call triggers no discovery.
  \<^item> In any state, the same holds of a call without \<open>useCache: false\<close> when the pending
    load is the cached one.
  \<^item> In any state, when a call is followed at once by a call without \<open>useCache: false\<close>,
    both return the same promise; if the first call started discovery, discovery was
    started exactly once by the two, and the promise is pending unless the body of the
    first call raised before its first \<open>await\<close>; the same holds for any number of calls
    that follow without a bypass.
\<close>

theorem loadModelCatalog_single_flight:
  assumes "uc2 \<noteq> Some False"
  shows "((\<forall>ev \<in> set evs. \<not> bypassesCache ev) \<and> isPending (catalogRun lc evs) p \<longrightarrow>
            loadModelCatalog uc2 r2 (catalogRun lc evs) = (p, catalogRun lc evs))
       \<and> (modelCatalogPromise st = Some h \<and> isPending st h \<longrightarrow> loadModelCatalog uc2 r2 st = (h, st))
       \<and> loadModelCatalog uc2 r2 (snd (loadModelCatalog uc1 r1 st))
           = (fst (loadModelCatalog uc1 r1 st), snd (loadModelCatalog uc1 r1 st))
       \<and> (modelCatalogPromise st = None \<or> uc1 = Some False \<longrightarrow>
            fst (loadModelCatalog uc1 r1 st) = length (promises st)
            \<and> (\<not> r1 \<longrightarrow> isPending (snd (loadModelCatalog uc1 r1 st)) (fst (loadModelCatalog uc1 r1 st)))
            \<and> length (promises (snd (loadModelCatalog uc2 r2 (snd (loadModelCatalog uc1 r1 st)))))
                 = Suc (length (promises st)))
       \<and> ((\<forall>c \<in> set calls. fst c \<noteq> Some False) \<longrightarrow>
            loadAll calls (snd (loadModelCatalog uc1 r1 st)) = snd (loadModelCatalog uc1 r1 st))"
proof -
  have run: "loadModelCatalog uc2 r2 (catalogRun lc evs) = (p, catalogRun lc evs)"
    if "\<forall>ev \<in> set evs. \<not> bypassesCache ev" "isPending (catalogRun lc evs) p"
    using pending_is_cached [OF that] assms by (rule loadModelCatalog_cached)
  have a: "modelCatalogPromise st = Some h \<and> isPending st h \<longrightarrow> loadModelCatalog uc2 r2 st = (h, st)"
    using assms by (simp add: loadModelCatalog_cached)
  have b: "loadModelCatalog uc2 r2 (snd (loadModelCatalog uc1 r1 st))
           = (fst (loadModelCatalog uc1 r1 st), snd (loadModelCatalog uc1 r1 st))"
    using loadModelCatalog_caches [of uc1 r1 st] assms by (rule loadModelCatalog_cached)
  have c: "fst (loadModelCatalog uc1 r1 st) = length (promises st)
            \<and> (\<not> r1 \<longrightarrow> isPending (snd (loadModelCatalog uc1 r1 st)) (fst (loadModelCatalog uc1 r1 st)))
            \<and> length (promises (snd (loadModelCatalog uc2 r2 (snd (loadModelCatalog uc1 r1 st)))))
                 = Suc (length (promises st))"
    if "modelCatalogPromise st = None \<or> uc1 = Some False"
    unfolding b using that loadModelCatalog_starts_length [OF that, of r1]
    by (auto simp: loadModelCatalog_starts isPending_def)
  have d: "loadAll calls (snd (loadModelCatalog uc1 r1 st)) = snd (loadModelCatalog uc1 r1 st)"
    if "\<forall>c \<in> set calls. fst c \<noteq> Some False"
    using loadModelCatalog_caches [of uc1 r1 st] that by (rule loadAll_cached)
  from run a b c d show ?thesis by blast
qed

text \<open>
  Two calls on the initial state: one promise, one discovery.  The same as a run: after
  the first call its load is pending, and the second call returns it and changes nothing.
\<close>

theorem loadModelCatalog_single_flight_witness:
  "fst (loadModelCatalog None False initialCatalogState) = 0
   \<and> fst (loadModelCatalog None False (snd (loadModelCatalog None False initialCatalogState))) = 0
   \<and> isPending (snd (loadModelCatalog None False initialCatalogState)) 0
   \<and> length (promises (snd (loadModelCatalog None False
                (snd (loadModelCatalog None False initialCatalogState))))) = 1
   \<and> list_all (\<lambda>ev. bypassesCache ev = False) [Load None False]
   \<and> isPending (catalogRun noCollation [Load None False]) 0
   \<and> loadModelCatalog None False (catalogRun noCollation [Load None False])
       = (0, catalogRun noCollation [Load None False])"
proof -
  have n: "modelCatalogPromise initialCatalogState = None" "promises initialCatalogState = []"
    by (simp_all add: initialCatalogState_def)
  have u: "(None :: bool option) \<noteq> Some False" by simp
  have nb: "\<forall>ev \<in> set [Load None False]. \<not> bypassesCache ev"
    by (simp add: bypassesCache_def)
  have pe: "isPending (catalogRun noCollation [Load None False]) 0"
    by (simp add: catalogRun_def catalogStep_def loadModelCatalog_def initialCatalogState_def
        isPending_def)
  from loadModelCatalog_single_flight
         [OF u, of "[Load None False]" noCollation 0 False initialCatalogState 0 None False "[]"]
       n nb pe
  show ?thesis by (auto simp: bypassesCache_def)
qed

text \<open>
  The claim as stated fails for a second call that bypasses the cache while the first load
  is pending: it returns another promise, and discovery is started a second time.
\<close>

theorem loadModelCatalog_single_flight_counterexample:
  "fst (loadModelCatalog None False initialCatalogState) = 0
   \<and> isPending (snd (loadModelCatalog None False initialCatalogState)) 0
   \<and> fst (loadModelCatalog (Some False) False (snd (loadModelCatalog None False initialCatalogState))) = 1
   \<and> length (promises (snd (loadModelCatalog (Some False) False
                (snd (loadModelCatalog None False initialCatalogState))))) = 2"
  by (simp add: loadModelCatalog_def initialCatalogState_def isPending_def Let_def)

text \<open>
  Beyond the claim: once a call has bypassed the cache, a later call without a bypass can
  start discovery while a load is pending.  Here the first load is bypassed and then
  fails, which empties the cache while the second load is pending; the third call, which
  does not bypass the cache, gets a third promise.
\<close>

lemma plain_call_after_bypass_starts_discovery:
  "isPending (catalogRun noCollation [Load None False, Load (Some False) False, Settle 0 (Failed [])]) 1
   \<and> modelCatalogPromise
       (catalogRun noCollation [Load None False, Load (Some False) False, Settle 0 (Failed [])]) = None
   \<and> fst (loadModelCatalog None False
       (catalogRun noCollation [Load None False, Load (Some False) False, Settle 0 (Failed [])])) = 2
   \<and> length (promises (snd (loadModelCatalog None False
       (catalogRun noCollation [Load None False, Load (Some False) False, Settle 0 (Failed [])])))) = 3"
  by (simp add: catalogRun_def catalogStep_def loadModelCatalog_def initialCatalogState_def
      settle_def isPending_def Let_def catalogEntriesOf_Nil)

end
